theory Spec2Isabelle
  imports Complex_Main
begin

section \<open>JavaScript values and property reads\<close>

text \<open>
  The script keeps its tables (\<open>centerCoords\<close>, \<open>TILE_FOLDER_MAP\<close>, \<open>cityMap\<close>) in object
  literals and reads them with \<open>table[key]\<close>. Such a read first looks at the object's own
  properties and then follows the prototype chain, which for an object literal is
  \<open>Object.prototype\<close>. The values the script can meet are therefore: \<open>undefined\<close>,
  \<open>null\<close>, strings, object literals, and the built-in objects and functions that hang
  off \<open>Object.prototype\<close>; \<open>Builtin n\<close> stands for the built-in named \<open>n\<close>, and
  \<open>Obj ps\<close> for an object whose own properties are the pairs \<open>ps\<close>.
\<close>

datatype jsval =
    Undefined
  | Null
  | Str string
  | Obj "(string \<times> jsval) list"
  | Builtin string

datatype jserror = TypeError

text \<open>Truthiness as \<open>if (v)\<close>, \<open>v ? a : b\<close>, \<open>!v\<close> and \<open>v || d\<close> test it.\<close>

fun truthy :: "jsval \<Rightarrow> bool" where
  "truthy Undefined = False"
| "truthy Null = False"
| "truthy (Str s) = (s \<noteq> [])"
| "truthy (Obj ps) = True"
| "truthy (Builtin n) = True"

text \<open>
  The properties every object literal inherits (ECMAScript, the properties of the Object
  prototype object, with the legacy accessors browsers implement). \<open>constructor\<close> is the
  function \<open>Object\<close>; \<open>__proto__\<close> read on an object literal gives \<open>Object.prototype\<close>
  itself; the others are methods.
\<close>

definition Object_prototype_methods :: "string list" where
  "Object_prototype_methods =
     [''hasOwnProperty'', ''isPrototypeOf'', ''propertyIsEnumerable'', ''toLocaleString'',
      ''toString'', ''valueOf'', ''__defineGetter__'', ''__defineSetter__'',
      ''__lookupGetter__'', ''__lookupSetter__'']"

definition Object_prototype :: "string \<Rightarrow> jsval" where
  "Object_prototype k =
     (if k = ''constructor'' then Builtin ''Object''
      else if k = ''__proto__'' then Builtin ''Object.prototype''
      else if k \<in> set Object_prototype_methods then Builtin (''Object.prototype.'' @ k)
      else Undefined)"

text \<open>
  What the runtime does with values the script never builds itself is left open: a read
  of a property of anything but an object literal (\<open>Object[year]\<close>, say), and the string
  conversion of anything but a string, either of which may throw. Every theorem below
  holds for every such runtime.
\<close>

record runtime =
  get_other :: "jsval \<Rightarrow> string \<Rightarrow> jserror + jsval"
  str_other :: "jsval \<Rightarrow> jserror + string"

text \<open>\<open>v[k]\<close>: own property first, then the prototype.\<close>

fun js_get :: "runtime \<Rightarrow> jsval \<Rightarrow> string \<Rightarrow> jserror + jsval" where
  "js_get rt (Obj ps) k =
     (case map_of ps k of Some v \<Rightarrow> Inr v | None \<Rightarrow> Inr (Object_prototype k))"
| "js_get rt v k = get_other rt v k"

text \<open>The conversion a template literal \<open>`${v}`\<close> applies.\<close>

fun to_string :: "runtime \<Rightarrow> jsval \<Rightarrow> jserror + string" where
  "to_string rt (Str s) = Inr s"
| "to_string rt v = str_other rt v"

section \<open>Strings\<close>

text \<open>\<open>s.split(c)\<close> for a one-character separator: never empty, \<open>''''\<close> gives \<open>['''']\<close>.\<close>

fun split :: "char \<Rightarrow> string \<Rightarrow> string list" where
  "split c [] = [[]]"
| "split c (x # xs) =
     (if x = c then [] # split c xs
      else (case split c xs of w # ws \<Rightarrow> (x # w) # ws | [] \<Rightarrow> [[x]]))"

text \<open>\<open>a.pop()\<close> as an expression: the last element, \<open>undefined\<close> on an empty array.\<close>

definition pop :: "'a list \<Rightarrow> 'a option" where
  "pop xs = (if xs = [] then None else Some (last xs))"

text \<open>
  \<open>s.replace(pat, rep)\<close> with a string pattern: the first occurrence only, wherever it
  stands. (\<open>rep\<close> is taken literally; the script's replacement is the empty string.)
\<close>

fun replace :: "string \<Rightarrow> string \<Rightarrow> string \<Rightarrow> string" where
  "replace pat rep [] = (if pat = [] then rep else [])"
| "replace pat rep (x # xs) =
     (if take (length pat) (x # xs) = pat then rep @ drop (length pat) (x # xs)
      else x # replace pat rep xs)"

section \<open>The city resolver\<close>

definition cityMap :: jsval where
  "cityMap = Obj
     [(''munich'', Str ''munich''),
      (''vienna'', Str ''vienna''),
      (''dresden'', Str ''dresden''),
      (''enschede'', Str ''enschede''),
      (''index'', Str ''munich''),
      ('''', Str ''munich'')]"

text \<open>
  \<open>getCurrentCity\<close>, with \<open>window.location.pathname\<close> as its argument. \<open>pop()\<close> cannot
  give \<open>undefined\<close> here, since \<open>split\<close> is never empty; the branch is written out
  all the same (\<open>undefined.replace\<close> would throw).
\<close>

definition getCurrentCity :: "runtime \<Rightarrow> string \<Rightarrow> jserror + jsval" where
  "getCurrentCity rt pathname =
     (case pop (split CHR ''/'' pathname) of
        None \<Rightarrow> Inl TypeError
      | Some seg \<Rightarrow>
          (let filename = replace ''.html'' '''' seg in
           case js_get rt cityMap filename of
             Inl e \<Rightarrow> Inl e
           | Inr v \<Rightarrow> Inr (if truthy v then v else Str ''munich'')))"

section \<open>The page state\<close>

text \<open>
  The script's globals (\<open>map1\<close>, \<open>map2\<close>, \<open>cursor1\<close>, \<open>cursor2\<close>, \<open>histLayer\<close>,
  \<open>baseLayers\<close>), the \<open>syncing\<close> flag that the handlers of one \<open>initMaps\<close> call close
  over, and what the script can see of its collaborators: the map widgets and tile layers
  of the mapping library, the two cursor elements, the console.

  Numbers are reals. The script copies coordinates and zoom levels and subtracts pixel
  offsets once; it does no other arithmetic.
\<close>

type_synonym latlng = "real \<times> real"

text \<open>A tile layer object is known by its handle, its index in \<open>heap\<close>.\<close>

type_synonym handle = nat

text \<open>The options object of \<open>L.tileLayer\<close>; \<open>None\<close> is an option the script leaves out.\<close>

record tile_options =
  maxZoom :: real
  minZoom :: real
  tms :: "bool option"
  noWrap :: "bool option"
  attribution :: "string option"

record tile_layer =
  url :: string
  options :: tile_options

datatype panel = Map1 | Map2

datatype event_type = Move | Zoom | MouseMove

text \<open>
  The listeners the script registers: \<open>() => syncView(map1, map2)\<close>,
  \<open>() => syncView(map2, map1)\<close> and \<open>updateCursors\<close>. The arrow functions read the
  globals when they run, so a listener holds the names of the two panels.
\<close>

datatype handler = SyncView panel panel | UpdateCursors

text \<open>
  An event as a listener receives it: the panel that fired it, and for a pointer event
  the \<open>(clientX, clientY)\<close> of its \<open>originalEvent\<close>.
\<close>

record js_event =
  target :: panel
  originalEvent :: "(real \<times> real) option"

record map_options =
  zoomControl :: bool
  attributionControl :: bool
  maxBounds :: "latlng \<times> latlng"

text \<open>
  A map widget: the id of its container, its options, its view (none before the first
  \<open>setView\<close>), the layers on it in the order they were added, its listeners in the order
  they were registered, and the layer pickers added to it.
\<close>

record lmap =
  container :: string
  map_opts :: map_options
  view :: "(latlng \<times> real) option"
  layers :: "handle list"
  listeners :: "(event_type \<times> handler) list"
  controls :: "(string \<times> handle) list list"

text \<open>A cursor element: the container it was appended to and its \<open>style.left\<close> and
  \<open>style.top\<close>; \<open>Px x\<close> is the text \<open>x + 'px'\<close>.\<close>

datatype css_length = Px real

record cursor =
  parent :: string
  style_left :: "css_length option"
  style_top :: "css_length option"

text \<open>Every call into the mapping library, in the order the script makes them.\<close>

datatype widget_call =
    Call_tileLayer handle string tile_options
  | Call_map panel string map_options
  | Call_remove panel
  | Call_addTo handle panel
  | Call_removeLayer panel handle
  | Call_setUrl handle string
  | Call_setView panel latlng real "bool option"
  | Call_control_layers "(string \<times> handle) list" panel
  | Call_on panel "event_type list" handler

record page =
  map1 :: "lmap option"
  map2 :: "lmap option"
  cursor1 :: "cursor option"
  cursor2 :: "cursor option"
  histLayer :: "handle option"
  baseLayers :: "(string \<times> handle) list option"
  syncing :: bool
  heap :: "tile_layer list"
  rect1 :: "real \<times> real"
  rect2 :: "real \<times> real"
  console :: "string list"
  calls :: "widget_call list"

text \<open>
  The page before the script runs: every global undefined. \<open>r1\<close> and \<open>r2\<close> are the
  \<open>(left, top)\<close> of the bounding rectangles of the containers \<open>map1\<close> and \<open>map2\<close>,
  which the document supplies.
\<close>

definition page0 :: "real \<times> real \<Rightarrow> real \<times> real \<Rightarrow> page" where
  "page0 r1 r2 =
     \<lparr>map1 = None, map2 = None, cursor1 = None, cursor2 = None, histLayer = None,
      baseLayers = None, syncing = False, heap = [], rect1 = r1, rect2 = r2,
      console = [], calls = []\<rparr>"

text \<open>
  A statement either completes or throws. An exception that nobody catches ends the
  running listener, and the page lives on in the state the exception left.
\<close>

datatype result = Ok page | Threw jserror page

fun final :: "result \<Rightarrow> page" where
  "final (Ok st) = st"
| "final (Threw e st) = st"

fun get_map :: "panel \<Rightarrow> page \<Rightarrow> lmap option" where
  "get_map Map1 st = map1 st"
| "get_map Map2 st = map2 st"

fun put_map :: "panel \<Rightarrow> lmap \<Rightarrow> page \<Rightarrow> page" where
  "put_map Map1 m st = st\<lparr>map1 := Some m\<rparr>"
| "put_map Map2 m st = st\<lparr>map2 := Some m\<rparr>"

definition log_call :: "widget_call \<Rightarrow> page \<Rightarrow> page" where
  "log_call c st = st\<lparr>calls := calls st @ [c]\<rparr>"

section \<open>The mapping library, as far as the script uses it\<close>

text \<open>
  The library is not part of the repository. Its calls are modelled by what its
  documentation says they do to the objects above: \<open>L.tileLayer\<close> makes a new layer,
  \<open>addTo\<close> puts a layer on a map unless it is already there, \<open>removeLayer\<close> takes it
  off, \<open>setUrl\<close> rebinds the layer's template, \<open>on\<close> registers a listener for each event
  type named, and \<open>setView\<close> without animation gives the map the view asked for, with the
  centre brought inside the map's \<open>maxBounds\<close>, and fires \<open>zoom\<close> (when the zoom level
  changed) and \<open>move\<close> on that map before it returns. A method called on \<open>undefined\<close>
  throws.

  The widget keeps its whole viewport inside \<open>maxBounds\<close>; \<open>limit_center\<close> below keeps the
  centre inside, which is the part of that which does not depend on the size of the
  viewport. So a centre outside the bounds is never adopted as it is. What the widget
  does below that level is not modelled: its pixel arithmetic (a pan lands on a whole
  pixel, so the centre a panel ends with after a pan is the model's only up to that),
  the zoom range of the layers, the loading of tiles, and the events no listener of the
  script is registered for.
\<close>

definition limit_center :: "latlng \<times> latlng \<Rightarrow> latlng \<Rightarrow> latlng" where
  "limit_center b c =
     (max (fst (fst b)) (min (fst (snd b)) (fst c)),
      max (snd (fst b)) (min (snd (snd b)) (snd c)))"

definition tileLayer :: "string \<Rightarrow> tile_options \<Rightarrow> page \<Rightarrow> handle \<times> page" where
  "tileLayer u opts st =
     (let h = length (heap st)
      in (h, log_call (Call_tileLayer h u opts)
               (st\<lparr>heap := heap st @ [\<lparr>url = u, options = opts\<rparr>]\<rparr>)))"

definition addTo :: "handle \<Rightarrow> panel \<Rightarrow> page \<Rightarrow> result" where
  "addTo h p st =
     (let st1 = log_call (Call_addTo h p) st in
      case get_map p st1 of
        None \<Rightarrow> Threw TypeError st1
      | Some m \<Rightarrow>
          Ok (put_map p (m\<lparr>layers := (if h \<in> set (layers m) then layers m
                                       else layers m @ [h])\<rparr>) st1))"

definition removeLayer :: "panel \<Rightarrow> handle \<Rightarrow> page \<Rightarrow> result" where
  "removeLayer p h st =
     (case get_map p st of
        None \<Rightarrow> Threw TypeError st
      | Some m \<Rightarrow>
          Ok (put_map p (m\<lparr>layers := removeAll h (layers m)\<rparr>)
                (log_call (Call_removeLayer p h) st)))"

definition setUrl :: "handle \<Rightarrow> string \<Rightarrow> page \<Rightarrow> page" where
  "setUrl h u st =
     log_call (Call_setUrl h u)
       (if h < length (heap st) then st\<lparr>heap := (heap st)[h := (heap st ! h)\<lparr>url := u\<rparr>]\<rparr>
        else st)"

definition new_map :: "string \<Rightarrow> map_options \<Rightarrow> lmap" where
  "new_map el opts =
     \<lparr>container = el, map_opts = opts, view = None, layers = [], listeners = [],
      controls = []\<rparr>"

text \<open>\<open>map.remove()\<close> destroys the widget: its layers and listeners go with it.\<close>

definition remove_map :: "panel \<Rightarrow> page \<Rightarrow> result" where
  "remove_map p st =
     (case get_map p st of
        None \<Rightarrow> Threw TypeError st
      | Some m \<Rightarrow>
          Ok (put_map p (m\<lparr>layers := [], listeners := [], controls := []\<rparr>)
                (log_call (Call_remove p) st)))"

definition on :: "panel \<Rightarrow> event_type list \<Rightarrow> handler \<Rightarrow> page \<Rightarrow> result" where
  "on p tys f st =
     (case get_map p st of
        None \<Rightarrow> Threw TypeError st
      | Some m \<Rightarrow>
          Ok (put_map p (m\<lparr>listeners := listeners m @ map (\<lambda>ty. (ty, f)) tys\<rparr>)
                (log_call (Call_on p tys f) st)))"

definition handlers_for :: "event_type \<Rightarrow> lmap \<Rightarrow> handler list" where
  "handlers_for ty m = map snd (filter (\<lambda>l. fst l = ty) (listeners m))"

text \<open>\<open>L.control.layers(bl).addTo(map)\<close>: a layer picker on the map.\<close>

definition control_layers_addTo :: "(string \<times> handle) list \<Rightarrow> panel \<Rightarrow> page \<Rightarrow> result" where
  "control_layers_addTo bl p st =
     (let st1 = log_call (Call_control_layers bl p) st in
      case get_map p st1 of
        None \<Rightarrow> Threw TypeError st1
      | Some m \<Rightarrow> Ok (put_map p (m\<lparr>controls := controls m @ [bl]\<rparr>) st1))"

section \<open>Cursor mirroring\<close>

fun container_rect :: "panel \<Rightarrow> page \<Rightarrow> real \<times> real" where
  "container_rect Map1 st = rect1 st"
| "container_rect Map2 st = rect2 st"

text \<open>
  \<open>updateCursors\<close>. The four assignments run in the source's order, so an undefined
  \<open>cursor2\<close> throws after \<open>cursor1\<close> has moved.
\<close>

definition updateCursors :: "js_event \<Rightarrow> page \<Rightarrow> result" where
  "updateCursors e st =
     (let (rleft, rtop) = container_rect (target e) st in
      case originalEvent e of
        None \<Rightarrow> Threw TypeError st
      | Some (clientX, clientY) \<Rightarrow>
          (let x = clientX - rleft; y = clientY - rtop in
           case cursor1 st of
             None \<Rightarrow> Threw TypeError st
           | Some c1 \<Rightarrow>
               (let st1 = st\<lparr>cursor1 :=
                            Some (c1\<lparr>style_left := Some (Px x), style_top := Some (Px y)\<rparr>)\<rparr>
                in case cursor2 st1 of
                     None \<Rightarrow> Threw TypeError st1
                   | Some c2 \<Rightarrow>
                       Ok (st1\<lparr>cursor2 :=
                             Some (c2\<lparr>style_left := Some (Px x),
                                      style_top := Some (Px y)\<rparr>)\<rparr>))))"

section \<open>View synchronisation\<close>

text \<open>
  \<open>syncView\<close> calls \<open>setView\<close>, which fires events, whose listeners call \<open>syncView\<close>.
  The first argument bounds the depth of listener calls: \<open>None\<close> means the bound was
  reached, and the theorems show that depth two is never exceeded.

  \<open>fire\<close> runs the listeners in registration order and lets an exception through, as the
  library's event loop does. \<open>getCenter\<close> on a map that was never given a view throws.
\<close>

fun syncView :: "nat \<Rightarrow> panel \<Rightarrow> panel \<Rightarrow> page \<Rightarrow> result option"
  and setView :: "nat \<Rightarrow> panel \<Rightarrow> latlng \<Rightarrow> real \<Rightarrow> bool option \<Rightarrow> page \<Rightarrow> result option"
  and fire :: "nat \<Rightarrow> handler list \<Rightarrow> js_event \<Rightarrow> page \<Rightarrow> result option"
where
  "syncView 0 fromMap toMap st = None"
| "syncView (Suc n) fromMap toMap st =
     (if syncing st then Some (Ok st)
      else
        (let st1 = st\<lparr>syncing := True\<rparr> in
         case get_map fromMap st1 of
           None \<Rightarrow> Some (Threw TypeError st1)
         | Some f \<Rightarrow>
             (case view f of
                None \<Rightarrow> Some (Threw TypeError st1)
              | Some (center, zoom) \<Rightarrow>
                  (case setView n toMap center zoom (Some False) st1 of
                     None \<Rightarrow> None
                   | Some (Threw e st2) \<Rightarrow> Some (Threw e st2)
                   | Some (Ok st2) \<Rightarrow> Some (Ok (st2\<lparr>syncing := False\<rparr>))))))"
| "setView n p center zoom animate st =
     (case get_map p st of
        None \<Rightarrow> Some (Threw TypeError st)
      | Some m \<Rightarrow>
          (let st1 = put_map p
                       (m\<lparr>view := Some (limit_center (maxBounds (map_opts m)) center, zoom)\<rparr>)
                       (log_call (Call_setView p center zoom animate) st);
               e = \<lparr>target = p, originalEvent = None\<rparr>;
               zoomChanged = (map_option snd (view m) \<noteq> Some zoom)
           in case (if zoomChanged then fire n (handlers_for Zoom m) e st1
                    else Some (Ok st1)) of
                None \<Rightarrow> None
              | Some (Threw err st2) \<Rightarrow> Some (Threw err st2)
              | Some (Ok st2) \<Rightarrow> fire n (handlers_for Move m) e st2))"
| "fire n [] e st = Some (Ok st)"
| "fire n (h # hs) e st =
     (case (case h of
              SyncView a b \<Rightarrow> syncView n a b st
            | UpdateCursors \<Rightarrow> Some (updateCursors e st)) of
        None \<Rightarrow> None
      | Some (Threw err st1) \<Rightarrow> Some (Threw err st1)
      | Some (Ok st1) \<Rightarrow> fire n hs e st1)"

text \<open>
  An event of type \<open>ty\<close> that the widget of panel \<open>p\<close> fires by itself (the user dragged,
  zoomed or moved the pointer): its listeners run on the page as it then stands.
\<close>

definition dispatch ::
  "nat \<Rightarrow> panel \<Rightarrow> event_type \<Rightarrow> (real \<times> real) option \<Rightarrow> page \<Rightarrow> result option" where
  "dispatch n p ty oe st =
     (case get_map p st of
        None \<Rightarrow> Some (Ok st)
      | Some m \<Rightarrow> fire n (handlers_for ty m) \<lparr>target = p, originalEvent = oe\<rparr> st)"

section \<open>The historical layer\<close>

definition TILE_FOLDER_MAP :: jsval where
  "TILE_FOLDER_MAP = Obj
     [(''munich'', Obj
         [(''1400'', Null), (''1500'', Null), (''1600'', Null), (''1888'', Str ''muc-1888'')]),
      (''vienna'', Obj
         [(''1800'', Str ''vie-1800-folder''), (''1833'', Str ''v_1833'')]),
      (''dresden'', Obj
         [(''1750'', Str ''dre-1750-folder''), (''1833'', Str ''d_1833''),
          (''1878'', Str ''dre-1878-folder'')]),
      (''enschede'', Obj
         [(''1830'', Str ''ens-1830-folder''), (''1900'', Str ''ens-1900-folder'')])]"

definition hist_options :: tile_options where
  "hist_options =
     \<lparr>maxZoom = 19, minZoom = 9, tms = Some False, noWrap = Some True, attribution = None\<rparr>"

definition warning :: "string \<Rightarrow> string \<Rightarrow> string" where
  "warning city year =
     ''Tiles for '' @ city @ '' year '' @ year
       @ '' are not yet available. Showing background only.''"

text \<open>
  \<open>updateHistoricalLayer\<close>. The source asks for its table to be edited to fit the tile
  folders at hand, so the table is the argument \<open>tfm\<close>; \<open>TILE_FOLDER_MAP\<close> above is the
  table as it stands. \<open>tfm[city]\<close> is read twice in the source and once here: reading
  has no effect.
\<close>

definition lookup_folder :: "runtime \<Rightarrow> jsval \<Rightarrow> string \<Rightarrow> string \<Rightarrow> jserror + jsval" where
  "lookup_folder rt tfm city year =
     (case js_get rt tfm city of
        Inl e \<Rightarrow> Inl e
      | Inr c \<Rightarrow> if truthy c then js_get rt c year else Inr Null)"

definition updateHistoricalLayer ::
  "runtime \<Rightarrow> jsval \<Rightarrow> string \<Rightarrow> string \<Rightarrow> page \<Rightarrow> result" where
  "updateHistoricalLayer rt tfm city year st =
     (case lookup_folder rt tfm city year of
        Inl e \<Rightarrow> Threw e st
      | Inr folder \<Rightarrow>
          if \<not> truthy folder then
            (let st1 = st\<lparr>console := console st @ [warning city year]\<rparr> in
             case histLayer st1 of
               Some h \<Rightarrow>
                 (case removeLayer Map1 h st1 of
                    Threw e st2 \<Rightarrow> Threw e st2
                  | Ok st2 \<Rightarrow> Ok (st2\<lparr>histLayer := None\<rparr>))
             | None \<Rightarrow> Ok st1)
          else
            (case to_string rt folder of
               Inl e \<Rightarrow> Threw e st
             | Inr f \<Rightarrow>
                 (let tileUrl = ''tiles/'' @ f @ ''/{z}/{x}/{y}.png'' in
                  case histLayer st of
                    Some h \<Rightarrow> Ok (setUrl h tileUrl st)
                  | None \<Rightarrow>
                      (let (h, st1) = tileLayer tileUrl hist_options st in
                       case addTo h Map1 st1 of
                         Threw e st2 \<Rightarrow> Threw e st2
                       | Ok st2 \<Rightarrow> Ok (st2\<lparr>histLayer := Some h\<rparr>)))))"

section \<open>Initialisation\<close>

text \<open>
  \<open>centerCoords\<close>, by its own properties. A read that finds no own property gives
  \<open>undefined\<close> or an inherited built-in; neither is a coordinate, and \<open>setView\<close> throws
  on both.
\<close>

definition centerCoords :: "(string \<times> latlng) list" where
  "centerCoords =
     [(''munich'', (48.1351, 11.5820)),
      (''vienna'', (48.2082, 16.3738)),
      (''enschede'', (52.2215, 6.8937)),
      (''dresden'', (51.0504, 13.7373))]"

text \<open>\<open>L.latLngBounds(L.latLng(35, -10), L.latLng(71, 40))\<close>: south-west, north-east.\<close>

definition bounds :: "latlng \<times> latlng" where
  "bounds = ((35, -10), (71, 40))"

definition osm_url :: string where
  "osm_url = ''https://{s}.tile.openstreetmap.org/{z}/{x}/{y}.png''"

definition osm_options :: tile_options where
  "osm_options =
     \<lparr>maxZoom = 19, minZoom = 9, tms = None, noWrap = None,
      attribution = Some ''&copy; OSM contributors''\<rparr>"

definition google_url :: string where
  "google_url = ''https://mt1.google.com/vt/lyrs=s&x={x}&y={y}&z={z}''"

definition google_options :: tile_options where
  "google_options =
     \<lparr>maxZoom = 19, minZoom = 9, tms = None, noWrap = None,
      attribution = Some ''&copy; Google Satellite''\<rparr>"

definition panel_options :: map_options where
  "panel_options = \<lparr>zoomControl = False, attributionControl = False, maxBounds = bounds\<rparr>"

text \<open>Sequencing: the next statement runs only when this one completed.\<close>

definition and_then :: "result option \<Rightarrow> (page \<Rightarrow> result option) \<Rightarrow> result option" where
  "and_then r k =
     (case r of
        None \<Rightarrow> None
      | Some (Threw e st) \<Rightarrow> Some (Threw e st)
      | Some (Ok st) \<Rightarrow> k st)"

text \<open>
  \<open>map1 = L.map(el, {...}).setView(centerCoords[city], 13)\<close>: the global is assigned
  only when \<open>setView\<close> returned. The new widget has no listeners yet, so nothing runs
  when its first view is set.
\<close>

definition create_map :: "nat \<Rightarrow> panel \<Rightarrow> string \<Rightarrow> string \<Rightarrow> page \<Rightarrow> result option" where
  "create_map n p el city st =
     (let st1 = log_call (Call_map p el panel_options) st in
      case map_of centerCoords city of
        None \<Rightarrow> Some (Threw TypeError st1)
      | Some c \<Rightarrow> setView n p c 13 None (put_map p (new_map el panel_options) st1))"

text \<open>
  \<open>createCursor(document.getElementById(el))\<close>: a new \<open>div\<close> of class \<open>cursor\<close> in the
  container, with no position yet. (The document supplies both containers; removing
  the stale cursor elements first changes the document only, not the globals.)
\<close>

definition createCursor :: "string \<Rightarrow> cursor" where
  "createCursor el = \<lparr>parent = el, style_left = None, style_top = None\<rparr>"

definition initMaps ::
  "runtime \<Rightarrow> jsval \<Rightarrow> nat \<Rightarrow> string \<Rightarrow> string \<Rightarrow> page \<Rightarrow> result option" where
  "initMaps rt tfm n city initialYear st0 =
     and_then
       (if map1 st0 \<noteq> None
        then and_then (Some (remove_map Map1 st0)) (\<lambda>st. Some (remove_map Map2 st))
        else Some (Ok st0))
     (\<lambda>st.
     let (osmLayer, st) = tileLayer osm_url osm_options st in
     and_then (create_map n Map1 ''map1'' city st)
     (\<lambda>st.
     and_then (Some (addTo osmLayer Map1 st))
     (\<lambda>st.
     and_then (create_map n Map2 ''map2'' city st)
     (\<lambda>st.
     let (osmLayerForMap2, st) = tileLayer osm_url osm_options st;
         (googleSatLayer, st) = tileLayer google_url google_options st in
     and_then (Some (addTo googleSatLayer Map2 st))
     (\<lambda>st.
     let bl = [(''OpenStreetMap'', osmLayerForMap2), (''Satellite Imagery'', googleSatLayer)];
         st = st\<lparr>baseLayers := Some bl\<rparr> in
     and_then (Some (control_layers_addTo bl Map2 st))
     (\<lambda>st.
     and_then (Some (updateHistoricalLayer rt tfm city initialYear st))
     (\<lambda>st.
     let st = st\<lparr>syncing := False\<rparr> in
     and_then (Some (on Map1 [Move, Zoom] (SyncView Map1 Map2) st))
     (\<lambda>st.
     and_then (Some (on Map2 [Move, Zoom] (SyncView Map2 Map1) st))
     (\<lambda>st.
     let st = st\<lparr>cursor1 := Some (createCursor ''map1'')\<rparr>;
         st = st\<lparr>cursor2 := Some (createCursor ''map2'')\<rparr> in
     and_then (Some (on Map1 [MouseMove] UpdateCursors st))
     (\<lambda>st. Some (on Map2 [MouseMove] UpdateCursors st)))))))))))"

section \<open>Predicates on pages\<close>

fun other :: "panel \<Rightarrow> panel" where
  "other Map1 = Map2"
| "other Map2 = Map1"

text \<open>The listeners \<open>initMaps\<close> leaves on a panel, in registration order.\<close>

definition installed :: "panel \<Rightarrow> (event_type \<times> handler) list" where
  "installed p =
     [(Move, SyncView p (other p)), (Zoom, SyncView p (other p)), (MouseMove, UpdateCursors)]"

text \<open>A page on which \<open>initMaps\<close> ran to its end: both panels have a view and their
  listeners, and both cursor elements exist.\<close>

definition wired :: "page \<Rightarrow> bool" where
  "wired st =
     (case (map1 st, map2 st) of
        (Some m1, Some m2) \<Rightarrow>
          listeners m1 = installed Map1 \<and> listeners m2 = installed Map2
          \<and> view m1 \<noteq> None \<and> view m2 \<noteq> None
          \<and> cursor1 st \<noteq> None \<and> cursor2 st \<noteq> None
      | _ \<Rightarrow> False)"

text \<open>A page on which no listener is registered: \<open>initMaps\<close> did not get that far.\<close>

definition unwired :: "page \<Rightarrow> bool" where
  "unwired st =
     ((case map1 st of None \<Rightarrow> True | Some m \<Rightarrow> listeners m = [])
      \<and> (case map2 st of None \<Rightarrow> True | Some m \<Rightarrow> listeners m = []))"

text \<open>A page at rest, between two events: the guard is clear, and the page is either
  set up in full or has no listeners at all.\<close>

definition settled :: "page \<Rightarrow> bool" where
  "settled st = (\<not> syncing st \<and> (wired st \<or> unwired st))"

text \<open>A table entry by own properties only: what the table itself says.\<close>

definition catalog_entry :: "jsval \<Rightarrow> string \<Rightarrow> string \<Rightarrow> jsval option" where
  "catalog_entry tfm city year =
     (case tfm of
        Obj cs \<Rightarrow>
          (case map_of cs city of
             Some (Obj ys) \<Rightarrow> map_of ys year
           | _ \<Rightarrow> None)
      | _ \<Rightarrow> None)"

text \<open>
  The state of the historical layer: absent, or present with its handle, the template
  it is bound to, and whether it is on the primary map.
\<close>

datatype hist_state = Absent | Present handle "string option" bool

definition hist_state :: "page \<Rightarrow> hist_state" where
  "hist_state st =
     (case histLayer st of
        None \<Rightarrow> Absent
      | Some h \<Rightarrow>
          Present h
            (if h < length (heap st) then Some (url (heap st ! h)) else None)
            (case map1 st of None \<Rightarrow> False | Some m \<Rightarrow> h \<in> set (layers m)))"

text \<open>
  The invariant of the historical layer: the primary map carries its base layer and,
  beyond it, exactly the layer \<open>histLayer\<close> refers to, if any; without a primary map
  there is no historical layer.
\<close>

definition hist_inv :: "page \<Rightarrow> bool" where
  "hist_inv st =
     (case map1 st of
        None \<Rightarrow> histLayer st = None
      | Some m \<Rightarrow>
          (case layers m of
             [b] \<Rightarrow> histLayer st = None \<and> b < length (heap st)
           | [b, h] \<Rightarrow> histLayer st = Some h \<and> h \<noteq> b \<and> b < length (heap st)
                        \<and> h < length (heap st)
           | _ \<Rightarrow> False))"

text \<open>What the invariant reads: the layers on the primary map, \<open>histLayer\<close>, the layer objects.\<close>

definition hist_part :: "page \<Rightarrow> handle list option \<times> handle option \<times> tile_layer list" where
  "hist_part st = (map_option layers (map1 st), histLayer st, heap st)"

section \<open>The phases of initialisation\<close>

text \<open>
  \<open>initMaps\<close> up to the call of \<open>updateHistoricalLayer\<close>, and from there on. The two
  halves are cut out of the definition above to reason about them one at a time;
  \<open>initMaps_phases\<close> below shows that they compose to \<open>initMaps\<close>.
\<close>

definition build_widgets :: "nat \<Rightarrow> string \<Rightarrow> page \<Rightarrow> result option" where
  "build_widgets n city st0 =
     and_then
       (if map1 st0 \<noteq> None
        then and_then (Some (remove_map Map1 st0)) (\<lambda>st. Some (remove_map Map2 st))
        else Some (Ok st0))
     (\<lambda>st.
     let (osmLayer, st) = tileLayer osm_url osm_options st in
     and_then (create_map n Map1 ''map1'' city st)
     (\<lambda>st.
     and_then (Some (addTo osmLayer Map1 st))
     (\<lambda>st.
     and_then (create_map n Map2 ''map2'' city st)
     (\<lambda>st.
     let (osmLayerForMap2, st) = tileLayer osm_url osm_options st;
         (googleSatLayer, st) = tileLayer google_url google_options st in
     and_then (Some (addTo googleSatLayer Map2 st))
     (\<lambda>st.
     let bl = [(''OpenStreetMap'', osmLayerForMap2), (''Satellite Imagery'', googleSatLayer)];
         st = st\<lparr>baseLayers := Some bl\<rparr> in
     Some (control_layers_addTo bl Map2 st))))))"

definition install_listeners :: "page \<Rightarrow> result option" where
  "install_listeners st0 =
    (let st = st0\<lparr>syncing := False\<rparr> in
     and_then (Some (on Map1 [Move, Zoom] (SyncView Map1 Map2) st))
     (\<lambda>st.
     and_then (Some (on Map2 [Move, Zoom] (SyncView Map2 Map1) st))
     (\<lambda>st.
     let st = st\<lparr>cursor1 := Some (createCursor ''map1'')\<rparr>;
         st = st\<lparr>cursor2 := Some (createCursor ''map2'')\<rparr> in
     and_then (Some (on Map1 [MouseMove] UpdateCursors st))
     (\<lambda>st. Some (on Map2 [MouseMove] UpdateCursors st)))))"

section \<open>The pages a session can reach\<close>

text \<open>
  The script runs \<open>initMaps\<close> once, on the page as loaded. From then on the page changes
  when the user picks a year (the \<open>change\<close> listener calls \<open>updateHistoricalLayer\<close>), when
  a gesture moves or zooms a panel, when a panel fires an event and its listeners run,
  when the user picks a base layer in the layer picker of the secondary panel, and when
  the layout moves the containers. A run that throws leaves the page as it then is.
\<close>

inductive reachable :: "runtime \<Rightarrow> jsval \<Rightarrow> page \<Rightarrow> bool"
  for rt :: runtime and tfm :: jsval
where
  loaded:
    "initMaps rt tfm n city year (page0 r1 r2) = Some r \<Longrightarrow> reachable rt tfm (final r)"
| year_selected:
    "reachable rt tfm st \<Longrightarrow>
     reachable rt tfm (final (updateHistoricalLayer rt tfm city year st))"
| gesture:
    "reachable rt tfm st \<Longrightarrow> get_map p st = Some m \<Longrightarrow>
     reachable rt tfm (put_map p (m\<lparr>view := Some v\<rparr>) st)"
| event:
    "reachable rt tfm st \<Longrightarrow> dispatch n p ty oe st = Some r \<Longrightarrow>
     reachable rt tfm (final r)"
| base_layer_picked:
    "reachable rt tfm st \<Longrightarrow> map2 st = Some m \<Longrightarrow> baseLayers st = Some bl \<Longrightarrow>
     (name, h) \<in> set bl \<Longrightarrow>
     reachable rt tfm (st\<lparr>map2 := Some (m\<lparr>layers := [h]\<rparr>)\<rparr>)"
| layout:
    "reachable rt tfm st \<Longrightarrow> reachable rt tfm (st\<lparr>rect1 := r1, rect2 := r2\<rparr>)"

section \<open>A page for the examples\<close>

text \<open>
  A runtime that refuses every read and every conversion that was left open: an example
  that goes through under it needed none of them.
\<close>

definition strict_runtime :: runtime where
  "strict_runtime = \<lparr>get_other = (\<lambda>v k. Inl TypeError), str_other = (\<lambda>v. Inl TypeError)\<rparr>"

text \<open>
  The page \<open>dresden.html\<close> once the script has run with the year 1833 selected, the
  containers side by side, 600 pixels apart.
\<close>

definition dresden_page :: page where
  "dresden_page =
     \<lparr>map1 = Some
        \<lparr>container = ''map1'', map_opts = panel_options,
         view = Some ((51.0504, 13.7373), 13), layers = [0, 3],
         listeners = installed Map1, controls = []\<rparr>,
      map2 = Some
        \<lparr>container = ''map2'', map_opts = panel_options,
         view = Some ((51.0504, 13.7373), 13), layers = [2],
         listeners = installed Map2,
         controls = [[(''OpenStreetMap'', 1), (''Satellite Imagery'', 2)]]\<rparr>,
      cursor1 = Some (createCursor ''map1''),
      cursor2 = Some (createCursor ''map2''),
      histLayer = Some 3,
      baseLayers = Some [(''OpenStreetMap'', 1), (''Satellite Imagery'', 2)],
      syncing = False,
      heap =
        [\<lparr>url = osm_url, options = osm_options\<rparr>,
         \<lparr>url = osm_url, options = osm_options\<rparr>,
         \<lparr>url = google_url, options = google_options\<rparr>,
         \<lparr>url = ''tiles/d_1833/{z}/{x}/{y}.png'', options = hist_options\<rparr>],
      rect1 = (0, 0), rect2 = (600, 0),
      console = [],
      calls =
        [Call_tileLayer 0 osm_url osm_options,
         Call_map Map1 ''map1'' panel_options,
         Call_setView Map1 (51.0504, 13.7373) 13 None,
         Call_addTo 0 Map1,
         Call_map Map2 ''map2'' panel_options,
         Call_setView Map2 (51.0504, 13.7373) 13 None,
         Call_tileLayer 1 osm_url osm_options,
         Call_tileLayer 2 google_url google_options,
         Call_addTo 2 Map2,
         Call_control_layers [(''OpenStreetMap'', 1), (''Satellite Imagery'', 2)] Map2,
         Call_tileLayer 3 ''tiles/d_1833/{z}/{x}/{y}.png'' hist_options,
         Call_addTo 3 Map1,
         Call_on Map1 [Move, Zoom] (SyncView Map1 Map2),
         Call_on Map2 [Move, Zoom] (SyncView Map2 Map1),
         Call_on Map1 [MouseMove] UpdateCursors,
         Call_on Map2 [MouseMove] UpdateCursors]\<rparr>"

text \<open>The same page after the user picked 1888, a year Dresden has no tiles for.\<close>

definition dresden_bare :: page where
  "dresden_bare =
     final (updateHistoricalLayer strict_runtime TILE_FOLDER_MAP ''dresden'' ''1888''
              dresden_page)"

text \<open>A table whose only entry has the empty string as its folder.\<close>

definition empty_folder_table :: jsval where
  "empty_folder_table = Obj [(''dresden'', Obj [(''1833'', Str '''')])]"



text \<open>The page \<open>munich.html\<close> once the script has run with the year 1888 selected.\<close>

definition munich_page :: page where
  "munich_page =
     \<lparr>map1 = Some
        \<lparr>container = ''map1'', map_opts = panel_options,
         view = Some ((48.1351, 11.5820), 13), layers = [0, 3],
         listeners = installed Map1, controls = []\<rparr>,
      map2 = Some
        \<lparr>container = ''map2'', map_opts = panel_options,
         view = Some ((48.1351, 11.5820), 13), layers = [2],
         listeners = installed Map2,
         controls = [[(''OpenStreetMap'', 1), (''Satellite Imagery'', 2)]]\<rparr>,
      cursor1 = Some (createCursor ''map1''),
      cursor2 = Some (createCursor ''map2''),
      histLayer = Some 3,
      baseLayers = Some [(''OpenStreetMap'', 1), (''Satellite Imagery'', 2)],
      syncing = False,
      heap =
        [\<lparr>url = osm_url, options = osm_options\<rparr>,
         \<lparr>url = osm_url, options = osm_options\<rparr>,
         \<lparr>url = google_url, options = google_options\<rparr>,
         \<lparr>url = ''tiles/muc-1888/{z}/{x}/{y}.png'', options = hist_options\<rparr>],
      rect1 = (0, 0), rect2 = (600, 0),
      console = [],
      calls =
        [Call_tileLayer 0 osm_url osm_options,
         Call_map Map1 ''map1'' panel_options,
         Call_setView Map1 (48.1351, 11.5820) 13 None,
         Call_addTo 0 Map1,
         Call_map Map2 ''map2'' panel_options,
         Call_setView Map2 (48.1351, 11.5820) 13 None,
         Call_tileLayer 1 osm_url osm_options,
         Call_tileLayer 2 google_url google_options,
         Call_addTo 2 Map2,
         Call_control_layers [(''OpenStreetMap'', 1), (''Satellite Imagery'', 2)] Map2,
         Call_tileLayer 3 ''tiles/muc-1888/{z}/{x}/{y}.png'' hist_options,
         Call_addTo 3 Map1,
         Call_on Map1 [Move, Zoom] (SyncView Map1 Map2),
         Call_on Map2 [Move, Zoom] (SyncView Map2 Map1),
         Call_on Map1 [MouseMove] UpdateCursors,
         Call_on Map2 [MouseMove] UpdateCursors]\<rparr>"

section \<open>Reading fields through the state updates\<close>

lemma put_map_fields [simp]:
  "syncing (put_map p m st) = syncing st"
  "heap (put_map p m st) = heap st"
  "histLayer (put_map p m st) = histLayer st"
  "cursor1 (put_map p m st) = cursor1 st"
  "cursor2 (put_map p m st) = cursor2 st"
  "console (put_map p m st) = console st"
  "calls (put_map p m st) = calls st"
  "baseLayers (put_map p m st) = baseLayers st"
  "rect1 (put_map p m st) = rect1 st"
  "rect2 (put_map p m st) = rect2 st"
  by (cases p; simp)+

lemma get_put_map [simp]:
  "get_map p (put_map p m st) = Some m"
  "get_map (other p) (put_map p m st) = get_map (other p) st"
  "get_map p (put_map (other p) m st) = get_map p st"
  by (cases p; simp)+

lemma log_call_fields [simp]:
  "syncing (log_call c st) = syncing st"
  "heap (log_call c st) = heap st"
  "histLayer (log_call c st) = histLayer st"
  "cursor1 (log_call c st) = cursor1 st"
  "cursor2 (log_call c st) = cursor2 st"
  "console (log_call c st) = console st"
  "calls (log_call c st) = calls st @ [c]"
  "baseLayers (log_call c st) = baseLayers st"
  "rect1 (log_call c st) = rect1 st"
  "rect2 (log_call c st) = rect2 st"
  "map1 (log_call c st) = map1 st"
  "map2 (log_call c st) = map2 st"
  "get_map p (log_call c st) = get_map p st"
  by (cases p; simp add: log_call_def)+

lemma get_map_syncing [simp]: "get_map p (st\<lparr>syncing := b\<rparr>) = get_map p st"
  by (cases p) simp_all

lemma setUrl_fields [simp]:
  "map1 (setUrl h u st) = map1 st"
  "map2 (setUrl h u st) = map2 st"
  "histLayer (setUrl h u st) = histLayer st"
  "length (heap (setUrl h u st)) = length (heap st)"
  "console (setUrl h u st) = console st"
  by (simp_all add: setUrl_def log_call_def)

section \<open>Facts about the examples\<close>

lemma dresden_page_init:
  "initMaps strict_runtime TILE_FOLDER_MAP n ''dresden'' ''1833'' (page0 (0, 0) (600, 0))
     = Some (Ok dresden_page)"
  by (simp add: initMaps_def and_then_def page0_def tileLayer_def create_map_def
        centerCoords_def log_call_def new_map_def addTo_def control_layers_addTo_def
        updateHistoricalLayer_def lookup_folder_def TILE_FOLDER_MAP_def on_def
        handlers_for_def dresden_page_def installed_def limit_center_def panel_options_def
        bounds_def Let_def)

lemma munich_page_init:
  "initMaps strict_runtime TILE_FOLDER_MAP n ''munich'' ''1888'' (page0 (0, 0) (600, 0))
     = Some (Ok munich_page)"
  by (simp add: initMaps_def and_then_def page0_def tileLayer_def create_map_def
        centerCoords_def log_call_def new_map_def addTo_def control_layers_addTo_def
        updateHistoricalLayer_def lookup_folder_def TILE_FOLDER_MAP_def on_def
        handlers_for_def munich_page_def installed_def limit_center_def panel_options_def
        bounds_def Let_def)

lemma dresden_page_wired: "wired dresden_page"
  by (simp add: wired_def dresden_page_def)

lemma dresden_page_hist_inv: "hist_inv dresden_page"
  by (simp add: hist_inv_def dresden_page_def)

lemma dresden_bare_eq:
  "dresden_bare =
     dresden_page
       \<lparr>console := [warning ''dresden'' ''1888''],
        calls := calls dresden_page @ [Call_removeLayer Map1 3],
        map1 := Some \<lparr>container = ''map1'', map_opts = panel_options,
                      view = Some ((51.0504, 13.7373), 13), layers = [0],
                      listeners = installed Map1, controls = []\<rparr>,
        histLayer := None\<rparr>"
  by (simp add: dresden_bare_def updateHistoricalLayer_def lookup_folder_def
        TILE_FOLDER_MAP_def Object_prototype_def Object_prototype_methods_def
        dresden_page_def removeLayer_def log_call_def)

lemma dresden_bare_hist_inv: "hist_inv dresden_bare"
  by (simp add: dresden_bare_eq hist_inv_def) (simp add: dresden_page_def)

section \<open>The catalog lookup\<close>

lemma lookup_folder_own:
  "catalog_entry tfm city year = Some v \<Longrightarrow> lookup_folder rt tfm city year = Inr v"
  by (auto simp: catalog_entry_def lookup_folder_def split: jsval.splits option.splits)

lemma lookup_folder_missing:
  "map_of cs city = None \<Longrightarrow> Object_prototype city = Undefined \<Longrightarrow>
     lookup_folder rt (Obj cs) city year = Inr Null"
  "map_of cs city = Some (Obj ys) \<Longrightarrow> map_of ys year = None \<Longrightarrow>
     Object_prototype year = Undefined \<Longrightarrow>
     lookup_folder rt (Obj cs) city year = Inr Undefined"
  by (simp_all add: lookup_folder_def)

lemma catalog_folder_nonempty:
  "catalog_entry TILE_FOLDER_MAP city year = Some (Str f) \<Longrightarrow> f \<noteq> []"
  by (auto simp: catalog_entry_def TILE_FOLDER_MAP_def split: if_splits)

lemma catalog_dresden_1833:
  "catalog_entry TILE_FOLDER_MAP ''dresden'' ''1833'' = Some (Str ''d_1833'')"
  by (simp add: catalog_entry_def TILE_FOLDER_MAP_def)

section \<open>The branches of the layer switcher\<close>

lemma updateHistoricalLayer_throws:
  "lookup_folder rt tfm city year = Inl e \<Longrightarrow>
     updateHistoricalLayer rt tfm city year st = Threw e st"
  "lookup_folder rt tfm city year = Inr v \<Longrightarrow> truthy v \<Longrightarrow> to_string rt v = Inl e \<Longrightarrow>
     updateHistoricalLayer rt tfm city year st = Threw e st"
  by (simp_all add: updateHistoricalLayer_def)

lemma updateHistoricalLayer_falsy:
  assumes "lookup_folder rt tfm city year = Inr v" and "\<not> truthy v"
  shows "updateHistoricalLayer rt tfm city year st =
           (case histLayer st of
              None \<Rightarrow> Ok (st\<lparr>console := console st @ [warning city year]\<rparr>)
            | Some h \<Rightarrow>
                (case map1 st of
                   None \<Rightarrow> Threw TypeError (st\<lparr>console := console st @ [warning city year]\<rparr>)
                 | Some m \<Rightarrow>
                     Ok (st\<lparr>console := console st @ [warning city year],
                            calls := calls st @ [Call_removeLayer Map1 h],
                            map1 := Some (m\<lparr>layers := removeAll h (layers m)\<rparr>),
                            histLayer := None\<rparr>)))"
  using assms
  by (simp add: updateHistoricalLayer_def removeLayer_def log_call_def Let_def
           split: option.splits)

lemma updateHistoricalLayer_rebind:
  assumes "lookup_folder rt tfm city year = Inr v" and "truthy v"
    and "to_string rt v = Inr f" and "histLayer st = Some h"
  shows "updateHistoricalLayer rt tfm city year st =
           Ok (setUrl h (''tiles/'' @ f @ ''/{z}/{x}/{y}.png'') st)"
  using assms by (simp add: updateHistoricalLayer_def)

lemma updateHistoricalLayer_create:
  assumes "lookup_folder rt tfm city year = Inr v" and "truthy v"
    and "to_string rt v = Inr f" and "histLayer st = None" and "map1 st = Some m"
  shows "updateHistoricalLayer rt tfm city year st =
           Ok (st\<lparr>heap := heap st @ [\<lparr>url = ''tiles/'' @ f @ ''/{z}/{x}/{y}.png'',
                                     options = hist_options\<rparr>],
                  calls := calls st @
                    [Call_tileLayer (length (heap st)) (''tiles/'' @ f @ ''/{z}/{x}/{y}.png'')
                       hist_options,
                     Call_addTo (length (heap st)) Map1],
                  map1 := Some (m\<lparr>layers :=
                     (if length (heap st) \<in> set (layers m) then layers m
                      else layers m @ [length (heap st)])\<rparr>),
                  histLayer := Some (length (heap st))\<rparr>)"
  using assms
  by (simp add: updateHistoricalLayer_def tileLayer_def addTo_def log_call_def Let_def)

lemma updateHistoricalLayer_no_map:
  assumes "lookup_folder rt tfm city year = Inr v" and "truthy v"
    and "to_string rt v = Inr f" and "histLayer st = None" and "map1 st = None"
  shows "updateHistoricalLayer rt tfm city year st =
           Threw TypeError
             (st\<lparr>heap := heap st @ [\<lparr>url = ''tiles/'' @ f @ ''/{z}/{x}/{y}.png'',
                                     options = hist_options\<rparr>],
                  calls := calls st @
                    [Call_tileLayer (length (heap st)) (''tiles/'' @ f @ ''/{z}/{x}/{y}.png'')
                       hist_options,
                     Call_addTo (length (heap st)) Map1]\<rparr>)"
  using assms
  by (simp add: updateHistoricalLayer_def tileLayer_def addTo_def log_call_def Let_def)

lemma updateHistoricalLayer_frame:
  "map_option view (map1 (final (updateHistoricalLayer rt tfm city year st)))
     = map_option view (map1 st)"
  "map_option map_opts (map1 (final (updateHistoricalLayer rt tfm city year st)))
     = map_option map_opts (map1 st)"
  "map_option listeners (map1 (final (updateHistoricalLayer rt tfm city year st)))
     = map_option listeners (map1 st)"
  "map2 (final (updateHistoricalLayer rt tfm city year st)) = map2 st"
  "cursor1 (final (updateHistoricalLayer rt tfm city year st)) = cursor1 st"
  "cursor2 (final (updateHistoricalLayer rt tfm city year st)) = cursor2 st"
  "syncing (final (updateHistoricalLayer rt tfm city year st)) = syncing st"
  by (auto simp: updateHistoricalLayer_def removeLayer_def setUrl_def tileLayer_def addTo_def
        log_call_def Let_def split: sum.splits option.splits)

text \<open>
  C4. When a historical layer is present (handle \<open>h\<close>) and the year switches to one whose
  catalog entry is a folder \<open>F2\<close>, the page changes in two places only: the template of
  layer \<open>h\<close> is overwritten, and one call, \<open>setUrl\<close>, is made to the library. The handle,
  the number of layer objects and the layers on the primary map stay as they were:
  no second layer, no detaching and reattaching.
\<close>

theorem rebind_in_place:
  assumes "catalog_entry TILE_FOLDER_MAP city year = Some (Str F2)"
    and "histLayer st = Some h" and "h < length (heap st)"
  shows "updateHistoricalLayer rt TILE_FOLDER_MAP city year st =
           Ok (st\<lparr>heap := (heap st)[h := (heap st ! h)
                                   \<lparr>url := ''tiles/'' @ F2 @ ''/{z}/{x}/{y}.png''\<rparr>],
                  calls := calls st @
                    [Call_setUrl h (''tiles/'' @ F2 @ ''/{z}/{x}/{y}.png'')]\<rparr>)"
  using assms
    updateHistoricalLayer_rebind [where v = "Str F2" and f = F2 and rt = rt,
      OF lookup_folder_own [OF assms(1)] _ _ assms(2)]
    catalog_folder_nonempty [OF assms(1)]
  by (simp add: setUrl_def log_call_def)

theorem rebind_in_place_witness:
  "catalog_entry TILE_FOLDER_MAP ''dresden'' ''1750'' = Some (Str ''dre-1750-folder'')
   \<and> histLayer dresden_page = Some 3 \<and> 3 < length (heap dresden_page)
   \<and> url (heap dresden_page ! 3) = ''tiles/d_1833/{z}/{x}/{y}.png''
   \<and> updateHistoricalLayer strict_runtime TILE_FOLDER_MAP ''dresden'' ''1750'' dresden_page =
       Ok (dresden_page
             \<lparr>heap := (heap dresden_page)[3 := (heap dresden_page ! 3)
                         \<lparr>url := ''tiles/dre-1750-folder/{z}/{x}/{y}.png''\<rparr>],
              calls := calls dresden_page @
                [Call_setUrl 3 ''tiles/dre-1750-folder/{z}/{x}/{y}.png'']\<rparr>)"
proof -
  have e: "catalog_entry TILE_FOLDER_MAP ''dresden'' ''1750'' = Some (Str ''dre-1750-folder'')"
    by (simp add: catalog_entry_def TILE_FOLDER_MAP_def)
  have h: "histLayer dresden_page = Some 3" "3 < length (heap dresden_page)"
    "url (heap dresden_page ! 3) = ''tiles/d_1833/{z}/{x}/{y}.png''"
    by (simp_all add: dresden_page_def)
  show ?thesis
    using e h rebind_in_place [OF e h(1) h(2), of strict_runtime] by simp
qed

section \<open>The invariant of the historical layer, taken apart\<close>

lemma hist_inv_iff:
  "hist_inv st =
     (case map1 st of
        None \<Rightarrow> histLayer st = None
      | Some m \<Rightarrow>
          (\<exists>b. layers m = [b] \<and> histLayer st = None \<and> b < length (heap st))
          \<or> (\<exists>b h. layers m = [b, h] \<and> histLayer st = Some h \<and> h \<noteq> b
                \<and> b < length (heap st) \<and> h < length (heap st)))"
  by (auto simp: hist_inv_def split: option.split list.split)

lemma hist_invD_absent:
  assumes "hist_inv st" "histLayer st = None" "map1 st = Some m"
  obtains b where "layers m = [b]" "b < length (heap st)"
  using assms by (auto simp: hist_inv_iff)

lemma hist_invD_present:
  assumes "hist_inv st" "histLayer st = Some h"
  obtains m b where "map1 st = Some m" "layers m = [b, h]" "h \<noteq> b" "b < length (heap st)"
    "h < length (heap st)"
  using assms by (auto simp: hist_inv_iff split: option.splits)

lemma hist_invI_nomap: "map1 st = None \<Longrightarrow> histLayer st = None \<Longrightarrow> hist_inv st"
  by (simp add: hist_inv_def)

lemma hist_invI_absent:
  "map1 st = Some m \<Longrightarrow> layers m = [b] \<Longrightarrow> histLayer st = None \<Longrightarrow> b < length (heap st)
   \<Longrightarrow> hist_inv st"
  by (simp add: hist_inv_def)

lemma hist_invI_present:
  "map1 st = Some m \<Longrightarrow> layers m = [b, h] \<Longrightarrow> histLayer st = Some h \<Longrightarrow> h \<noteq> b
   \<Longrightarrow> b < length (heap st) \<Longrightarrow> h < length (heap st) \<Longrightarrow> hist_inv st"
  by (simp add: hist_inv_def)

lemma hist_inv_hist_part: "hist_part st = hist_part st' \<Longrightarrow> hist_inv st = hist_inv st'"
  by (cases "map1 st"; cases "map1 st'"; clarsimp simp: hist_part_def hist_inv_def split: list.split)

lemma hist_part_put_view [simp]:
  "get_map p st = Some m \<Longrightarrow> hist_part (put_map p (m\<lparr>view := v\<rparr>) st) = hist_part st"
  by (cases p) (auto simp: hist_part_def)

lemma hist_part_simps [simp]:
  "hist_part (log_call c st) = hist_part st"
  "hist_part (st\<lparr>syncing := b\<rparr>) = hist_part st"
  by (simp_all add: hist_part_def)

lemma hist_part_updateCursors [simp]: "hist_part (final (updateCursors e st)) = hist_part st"
  by (auto simp: updateCursors_def hist_part_def Let_def split: prod.splits option.splits)

text \<open>
  C3. For every city and year whose entry in the catalog is a folder, on a page that has
  its primary map, the call completes and leaves the historical layer present, on the
  primary map, bound to exactly \<open>tiles/<folder>/{z}/{x}/{y}.png\<close>. If the layer was absent
  before, it is a new layer object with that template, \<open>noWrap\<close> set, zoom bounds 9 and
  19, and it is appended to the layers of the primary map.
\<close>

theorem folder_binds_template:
  assumes "catalog_entry TILE_FOLDER_MAP city year = Some (Str folder)"
    and "map1 st = Some m" and "hist_inv st"
  shows "\<exists>st' h. updateHistoricalLayer rt TILE_FOLDER_MAP city year st = Ok st'
           \<and> hist_state st' = Present h (Some (''tiles/'' @ folder @ ''/{z}/{x}/{y}.png'')) True
           \<and> (histLayer st = None \<longrightarrow>
                 h = length (heap st)
                 \<and> heap st' = heap st @
                      [\<lparr>url = ''tiles/'' @ folder @ ''/{z}/{x}/{y}.png'',
                        options = \<lparr>maxZoom = 19, minZoom = 9, tms = Some False,
                                   noWrap = Some True, attribution = None\<rparr>\<rparr>]
                 \<and> map1 st' = Some (m\<lparr>layers := layers m @ [h]\<rparr>))"
proof (cases "histLayer st")
  case None
  from hist_invD_absent [OF assms(3) None assms(2)]
  obtain b where b: "layers m = [b]" "b < length (heap st)" .
  have "length (heap st) \<notin> set (layers m)" using b by simp
  then show ?thesis
    using None assms(2)
      updateHistoricalLayer_create [where v = "Str folder" and f = folder and rt = rt,
        OF lookup_folder_own [OF assms(1)] _ _ None assms(2)]
      catalog_folder_nonempty [OF assms(1)]
    by (simp add: hist_state_def hist_options_def)
next
  case (Some h)
  from hist_invD_present [OF assms(3) Some]
  obtain m' b where m': "map1 st = Some m'" "layers m' = [b, h]" "h < length (heap st)"
    by blast
  show ?thesis
    using Some m'
      updateHistoricalLayer_rebind [where v = "Str folder" and f = folder and rt = rt,
        OF lookup_folder_own [OF assms(1)] _ _ Some]
      catalog_folder_nonempty [OF assms(1)]
    by (simp add: hist_state_def setUrl_def log_call_def)
qed

theorem folder_binds_template_witness:
  "catalog_entry TILE_FOLDER_MAP ''dresden'' ''1833'' = Some (Str ''d_1833'')
   \<and> map1 dresden_bare \<noteq> None \<and> hist_inv dresden_bare \<and> histLayer dresden_bare = None
   \<and> length (heap dresden_bare) = 4
   \<and> (\<exists>st'. updateHistoricalLayer strict_runtime TILE_FOLDER_MAP ''dresden'' ''1833''
               dresden_bare = Ok st'
            \<and> hist_state st' = Present 4 (Some ''tiles/d_1833/{z}/{x}/{y}.png'') True)"
proof -
  obtain m where m: "map1 dresden_bare = Some m"
    by (simp add: dresden_bare_eq)
  have n: "histLayer dresden_bare = None" "length (heap dresden_bare) = 4"
    by (simp_all add: dresden_bare_eq) (simp add: dresden_page_def)
  from folder_binds_template [OF catalog_dresden_1833 m dresden_bare_hist_inv,
      of strict_runtime]
  obtain st' h where
    "updateHistoricalLayer strict_runtime TILE_FOLDER_MAP ''dresden'' ''1833'' dresden_bare
       = Ok st'"
    "hist_state st' = Present h (Some (''tiles/'' @ ''d_1833'' @ ''/{z}/{x}/{y}.png'')) True"
    "h = 4"
    using n by auto
  then show ?thesis
    using m n catalog_dresden_1833 dresden_bare_hist_inv by simp
qed

text \<open>
  The part of C10 that holds: an entry whose folder is the empty string takes the same
  branch as an entry marked \<open>null\<close>. On the page that shows Dresden 1833 the call warns,
  calls \<open>removeLayer\<close> on the primary map, which is left with its base layer only, and
  clears \<open>histLayer\<close>; no layer is bound to \<open>tiles//{z}/{x}/{y}.png\<close>.
\<close>

lemma empty_folder_is_absent:
  "updateHistoricalLayer rt empty_folder_table ''dresden'' ''1833'' dresden_page =
     Ok (dresden_page
           \<lparr>console := [warning ''dresden'' ''1833''],
            calls := calls dresden_page @ [Call_removeLayer Map1 3],
            map1 := Some \<lparr>container = ''map1'', map_opts = panel_options,
                          view = Some ((51.0504, 13.7373), 13), layers = [0],
                          listeners = installed Map1, controls = []\<rparr>,
            histLayer := None\<rparr>)
   \<and> updateHistoricalLayer rt (Obj [(''dresden'', Obj [(''1833'', Null)])])
        ''dresden'' ''1833'' dresden_page =
       updateHistoricalLayer rt empty_folder_table ''dresden'' ''1833'' dresden_page"
  by (simp add: updateHistoricalLayer_def lookup_folder_def empty_folder_table_def
        dresden_page_def removeLayer_def log_call_def)

text \<open>
  C10, at the input where the code departs from it. On the page that shows Munich 1888,
  the year \<open>1400\<close>, which the table marks \<open>null\<close>, makes the call warn, remove the layer
  from the primary map and clear \<open>histLayer\<close>. The year \<open>constructor\<close> has no entry in
  the catalog of Munich, and the code does distinguish it from the marked one: the read
  \<open>TILE_FOLDER_MAP['munich']['constructor']\<close> finds the inherited function \<open>Object\<close>,
  which is truthy, so the layer stays, on the primary map, and nothing is written to the
  console, whatever the runtime makes of the string conversion.
\<close>

theorem missing_year_unlike_null:
  "catalog_entry TILE_FOLDER_MAP ''munich'' ''1400'' = Some Null
   \<and> catalog_entry TILE_FOLDER_MAP ''munich'' ''constructor'' = None
   \<and> updateHistoricalLayer rt TILE_FOLDER_MAP ''munich'' ''1400'' munich_page =
       Ok (munich_page
             \<lparr>console := [warning ''munich'' ''1400''],
              calls := calls munich_page @ [Call_removeLayer Map1 3],
              map1 := Some \<lparr>container = ''map1'', map_opts = panel_options,
                            view = Some ((48.1351, 11.5820), 13), layers = [0],
                            listeners = installed Map1, controls = []\<rparr>,
              histLayer := None\<rparr>)
   \<and> histLayer (final (updateHistoricalLayer rt TILE_FOLDER_MAP ''munich'' ''constructor''
        munich_page)) = Some 3
   \<and> map_option layers (map1 (final (updateHistoricalLayer rt TILE_FOLDER_MAP ''munich''
        ''constructor'' munich_page))) = Some [0, 3]
   \<and> console (final (updateHistoricalLayer rt TILE_FOLDER_MAP ''munich'' ''constructor''
        munich_page)) = []"
proof -
  have c: "catalog_entry TILE_FOLDER_MAP ''munich'' ''1400'' = Some Null"
    "catalog_entry TILE_FOLDER_MAP ''munich'' ''constructor'' = None"
    by (simp_all add: catalog_entry_def TILE_FOLDER_MAP_def)
  have n: "updateHistoricalLayer rt TILE_FOLDER_MAP ''munich'' ''1400'' munich_page =
       Ok (munich_page
             \<lparr>console := [warning ''munich'' ''1400''],
              calls := calls munich_page @ [Call_removeLayer Map1 3],
              map1 := Some \<lparr>container = ''map1'', map_opts = panel_options,
                            view = Some ((48.1351, 11.5820), 13), layers = [0],
                            listeners = installed Map1, controls = []\<rparr>,
              histLayer := None\<rparr>)"
    by (simp add: updateHistoricalLayer_def lookup_folder_def TILE_FOLDER_MAP_def
          munich_page_def removeLayer_def log_call_def)
  have l: "lookup_folder rt TILE_FOLDER_MAP ''munich'' ''constructor''
             = Inr (Builtin ''Object'')"
    by (simp add: lookup_folder_def TILE_FOLDER_MAP_def Object_prototype_def)
  have k: "histLayer (final (updateHistoricalLayer rt TILE_FOLDER_MAP ''munich''
               ''constructor'' munich_page)) = Some 3
     \<and> map_option layers (map1 (final (updateHistoricalLayer rt TILE_FOLDER_MAP ''munich''
               ''constructor'' munich_page))) = Some [0, 3]
     \<and> console (final (updateHistoricalLayer rt TILE_FOLDER_MAP ''munich'' ''constructor''
               munich_page)) = []"
    using l
    by (cases "str_other rt (Builtin ''Object'')")
       (simp_all add: updateHistoricalLayer_def setUrl_def log_call_def Let_def
          munich_page_def)
  from c n k show ?thesis by simp
qed

text \<open>
  C2, at the input where the code departs from it. The catalog of Dresden has no entry
  for the year \<open>constructor\<close>, but the read \<open>TILE_FOLDER_MAP['dresden']['constructor']\<close>
  finds the inherited function \<open>Object\<close>, which is truthy. On the page that shows
  Dresden 1833 the layer therefore stays present and on the primary map, and nothing is
  written to the console, whatever the runtime makes of the string conversion.
\<close>

theorem inherited_year_keeps_layer:
  "catalog_entry TILE_FOLDER_MAP ''dresden'' ''constructor'' = None
   \<and> lookup_folder rt TILE_FOLDER_MAP ''dresden'' ''constructor'' = Inr (Builtin ''Object'')
   \<and> histLayer (final (updateHistoricalLayer rt TILE_FOLDER_MAP ''dresden'' ''constructor''
        dresden_page)) = Some 3
   \<and> map1 (final (updateHistoricalLayer rt TILE_FOLDER_MAP ''dresden'' ''constructor''
        dresden_page)) = map1 dresden_page
   \<and> console (final (updateHistoricalLayer rt TILE_FOLDER_MAP ''dresden'' ''constructor''
        dresden_page)) = []"
proof -
  have l: "lookup_folder rt TILE_FOLDER_MAP ''dresden'' ''constructor''
             = Inr (Builtin ''Object'')"
    by (simp add: lookup_folder_def TILE_FOLDER_MAP_def Object_prototype_def)
  have h: "histLayer dresden_page = Some 3" "console dresden_page = []"
    by (simp_all add: dresden_page_def)
  have c: "catalog_entry TILE_FOLDER_MAP ''dresden'' ''constructor'' = None"
    by (simp add: catalog_entry_def TILE_FOLDER_MAP_def)
  show ?thesis
    using l h c
    by (cases "str_other rt (Builtin ''Object'')")
       (simp_all add: updateHistoricalLayer_def setUrl_def log_call_def Let_def
          dresden_page_def)
qed

section \<open>The layer switcher keeps the invariant and is idempotent\<close>

lemma updateHistoricalLayer_hist_inv:
  assumes "hist_inv st"
  shows "hist_inv (final (updateHistoricalLayer rt tfm city year st))"
proof (cases "lookup_folder rt tfm city year")
  case (Inl e)
  with assms show ?thesis by (simp add: updateHistoricalLayer_throws)
next
  case (Inr v)
  show ?thesis
  proof (cases "truthy v")
    case False
    show ?thesis
    proof (cases "histLayer st")
      case None
      then have "hist_part (final (updateHistoricalLayer rt tfm city year st)) = hist_part st"
        using updateHistoricalLayer_falsy [OF Inr False, of st]
        by (simp add: hist_part_def)
      from hist_inv_hist_part [OF this] assms show ?thesis by simp
    next
      case (Some h)
      from hist_invD_present [OF assms Some]
      obtain m b where m: "map1 st = Some m" "layers m = [b, h]" "h \<noteq> b"
        "b < length (heap st)"
        by blast
      show ?thesis
        using Some m updateHistoricalLayer_falsy [OF Inr False, of st]
        by (intro hist_invI_absent [where b = b and m = "m\<lparr>layers := [b]\<rparr>"]) simp_all
    qed
  next
    case True
    show ?thesis
    proof (cases "to_string rt v")
      case (Inl e)
      with assms Inr True show ?thesis by (simp add: updateHistoricalLayer_throws)
    next
      case f: (Inr f)
      show ?thesis
      proof (cases "histLayer st")
        case (Some h)
        from hist_invD_present [OF assms Some]
        obtain m b where m: "map1 st = Some m" "layers m = [b, h]" "h \<noteq> b"
          "b < length (heap st)" "h < length (heap st)"
          by blast
        show ?thesis
          using Some m updateHistoricalLayer_rebind [OF Inr True f Some]
          by (intro hist_invI_present [where b = b and m = m and h = h]) simp_all
      next
        case None
        show ?thesis
        proof (cases "map1 st")
          case n: None
          show ?thesis
            using None n updateHistoricalLayer_no_map [OF Inr True f None n]
            by (intro hist_invI_nomap) simp_all
        next
          case (Some m)
          from hist_invD_absent [OF assms None Some]
          obtain b where b: "layers m = [b]" "b < length (heap st)" .
          show ?thesis
            using b updateHistoricalLayer_create [OF Inr True f None Some]
            by (intro hist_invI_present [where b = b and h = "length (heap st)"
                  and m = "m\<lparr>layers := [b, length (heap st)]\<rparr>"]) auto
        qed
      qed
    qed
  qed
qed

lemma hist_state_setUrl:
  "histLayer st = Some h \<Longrightarrow>
   hist_state (setUrl h u st) =
     Present h (if h < length (heap st) then Some u else None)
       (case map1 st of None \<Rightarrow> False | Some m \<Rightarrow> h \<in> set (layers m))"
  by (simp add: hist_state_def setUrl_def log_call_def)

lemma hist_state_absent: "histLayer st = None \<Longrightarrow> hist_state st = Absent"
  by (simp add: hist_state_def)

text \<open>
  C9. Calling the switcher a second time with the same city and year leaves the state of
  the historical layer (absent, or present with its handle, its template and its place
  on the primary map) as the first call left it. This holds from every page, reachable
  or not, and also when a call throws.
\<close>

theorem updateHistoricalLayer_idempotent:
  "hist_state (final (updateHistoricalLayer rt tfm city year
                  (final (updateHistoricalLayer rt tfm city year st))))
   = hist_state (final (updateHistoricalLayer rt tfm city year st))"
proof (cases "lookup_folder rt tfm city year")
  case (Inl e)
  then show ?thesis by (simp add: updateHistoricalLayer_throws)
next
  case (Inr v)
  show ?thesis
  proof (cases "truthy v")
    case False
    note once = updateHistoricalLayer_falsy [OF Inr False]
    show ?thesis
    proof (cases "histLayer st")
      case None
      then show ?thesis by (simp add: once hist_state_absent)
    next
      case (Some h)
      then show ?thesis
        by (cases "map1 st") (simp_all add: once hist_state_def)
    qed
  next
    case True
    show ?thesis
    proof (cases "to_string rt v")
      case (Inl e)
      with Inr True show ?thesis by (simp add: updateHistoricalLayer_throws)
    next
      case f: (Inr f)
      note rebind = updateHistoricalLayer_rebind [OF Inr True f]
      show ?thesis
      proof (cases "histLayer st")
        case (Some h)
        then show ?thesis by (simp add: rebind hist_state_setUrl)
      next
        case None
        show ?thesis
        proof (cases "map1 st")
          case n: None
          note nm = updateHistoricalLayer_no_map [OF Inr True f]
          from None n show ?thesis by (simp add: nm hist_state_absent)
        next
          case (Some m)
          note cr = updateHistoricalLayer_create [OF Inr True f None Some]
          show ?thesis
            by (simp add: cr rebind hist_state_setUrl) (simp add: hist_state_def)
        qed
      qed
    qed
  qed
qed

section \<open>The city resolver\<close>

lemma split_not_Nil: "split c s \<noteq> []"
  by (induction s) (auto split: list.splits)

lemma getCurrentCity_returns: "\<exists>v. getCurrentCity rt pathname = Inr v \<and> truthy v"
  by (auto simp: getCurrentCity_def pop_def cityMap_def split_not_Nil Let_def)

text \<open>
  The resolver in full: the four city names map to themselves; \<open>index\<close>, the empty name
  and every name that \<open>Object.prototype\<close> does not know map to \<open>munich\<close>; a name that
  \<open>Object.prototype\<close> knows maps to the built-in found there.
\<close>

lemma getCurrentCity_by_name:
  "getCurrentCity rt pathname =
     (let name = replace ''.html'' '''' (last (split CHR ''/'' pathname)) in
      if name \<in> {''munich'', ''vienna'', ''dresden'', ''enschede''} then Inr (Str name)
      else if name \<in> {''index'', ''''} \<or> Object_prototype name = Undefined
      then Inr (Str ''munich'')
      else Inr (Object_prototype name))"
  by (auto simp: getCurrentCity_def pop_def cityMap_def split_not_Nil Let_def
        Object_prototype_def)

lemma getCurrentCity_examples:
  "getCurrentCity rt ''/maps/munich.html'' = Inr (Str ''munich'')"
  "getCurrentCity rt ''/maps/vienna.html'' = Inr (Str ''vienna'')"
  "getCurrentCity rt ''/maps/dresden.html'' = Inr (Str ''dresden'')"
  "getCurrentCity rt ''/maps/enschede.html'' = Inr (Str ''enschede'')"
  "getCurrentCity rt ''/maps/index.html'' = Inr (Str ''munich'')"
  "getCurrentCity rt ''/maps/'' = Inr (Str ''munich'')"
  "getCurrentCity rt ''/maps/paris.html'' = Inr (Str ''munich'')"
  by (simp_all add: getCurrentCity_def pop_def cityMap_def Object_prototype_def
        Object_prototype_methods_def)

text \<open>
  C6, at the input where the code departs from it. The page \<open>constructor.html\<close> is in
  none of the six rows of the table, yet \<open>cityMap['constructor']\<close> finds the inherited
  function \<open>Object\<close>; it is truthy, so \<open>|| 'munich'\<close> does not apply and the resolver
  returns the function, which is no city.
\<close>

theorem getCurrentCity_inherited_name:
  "getCurrentCity rt ''/constructor.html'' = Inr (Builtin ''Object'')"
  by (simp add: getCurrentCity_def pop_def cityMap_def Object_prototype_def)

section \<open>Cursor mirroring on a page that is set up\<close>

lemma updateCursors_mirrors:
  assumes "cursor1 st = Some c1" and "cursor2 st = Some c2"
    and "originalEvent e = Some (cx, cy)" and "container_rect (target e) st = (l, t)"
  shows "updateCursors e st =
           Ok (st\<lparr>cursor1 := Some (c1\<lparr>style_left := Some (Px (cx - l)),
                                      style_top := Some (Px (cy - t))\<rparr>),
                  cursor2 := Some (c2\<lparr>style_left := Some (Px (cx - l)),
                                      style_top := Some (Px (cy - t))\<rparr>)\<rparr>)"
  using assms by (simp add: updateCursors_def Let_def)

lemma handlers_installed [simp]:
  "listeners m = installed p \<Longrightarrow> handlers_for MouseMove m = [UpdateCursors]"
  "listeners m = installed p \<Longrightarrow> handlers_for Move m = [SyncView p (other p)]"
  "listeners m = installed p \<Longrightarrow> handlers_for Zoom m = [SyncView p (other p)]"
  by (simp_all add: handlers_for_def installed_def)

lemma wiredD:
  assumes "wired st"
  obtains m1 m2 c1 c2 v1 v2 where "map1 st = Some m1" "map2 st = Some m2"
    "listeners m1 = installed Map1" "listeners m2 = installed Map2"
    "view m1 = Some v1" "view m2 = Some v2" "cursor1 st = Some c1" "cursor2 st = Some c2"
  using assms by (auto simp: wired_def split: option.splits)

lemma get_map_wired:
  assumes "wired st"
  obtains m v where "get_map p st = Some m" "listeners m = installed p" "view m = Some v"
  using assms by (cases p) (auto elim!: wiredD)

text \<open>
  C7. On a page that \<open>initMaps\<close> has set up, a pointer move over either panel, at client
  position \<open>(cx, cy)\<close>, runs \<open>updateCursors\<close> and nothing else; with \<open>(l, t)\<close> the top-left
  corner of that panel's container, both cursor elements get \<open>left = (cx - l)px\<close> and
  \<open>top = (cy - t)px\<close>, and nothing else on the page changes.
\<close>

theorem pointer_move_mirrors:
  assumes "wired st" and "container_rect p st = (l, t)"
  shows "\<exists>c1 c2. cursor1 st = Some c1 \<and> cursor2 st = Some c2 \<and>
           dispatch n p MouseMove (Some (cx, cy)) st =
             Some (Ok (st\<lparr>cursor1 := Some (c1\<lparr>style_left := Some (Px (cx - l)),
                                              style_top := Some (Px (cy - t))\<rparr>),
                          cursor2 := Some (c2\<lparr>style_left := Some (Px (cx - l)),
                                              style_top := Some (Px (cy - t))\<rparr>)\<rparr>))"
proof -
  from assms(1) obtain c1 c2 where c: "cursor1 st = Some c1" "cursor2 st = Some c2"
    by (auto elim: wiredD)
  from assms(1) obtain m v where m: "get_map p st = Some m" "listeners m = installed p"
    by (auto elim: get_map_wired)
  show ?thesis
    using c m assms(2)
    by (simp add: dispatch_def
          updateCursors_mirrors [where ?c1.0 = c1 and ?c2.0 = c2 and cx = cx and cy = cy
            and l = l and t = t])
qed

theorem pointer_move_mirrors_witness:
  "wired dresden_page \<and> container_rect Map2 dresden_page = (600, 0)
   \<and> (\<exists>st'. dispatch 0 Map2 MouseMove (Some (650, 40)) dresden_page = Some (Ok st')
          \<and> map_option style_left (cursor1 st') = Some (Some (Px 50))
          \<and> map_option style_top (cursor1 st') = Some (Some (Px 40))
          \<and> map_option style_left (cursor2 st') = Some (Some (Px 50))
          \<and> map_option style_top (cursor2 st') = Some (Some (Px 40)))"
proof -
  have r: "container_rect Map2 dresden_page = (600, 0)"
    by (simp add: dresden_page_def)
  from pointer_move_mirrors [OF dresden_page_wired r, of 0 650 40]
  show ?thesis using dresden_page_wired r by auto
qed

section \<open>View synchronisation on a page that is set up\<close>

lemma syncView_locked: "syncing st \<Longrightarrow> syncView (Suc k) a b st = Some (Ok st)"
  by simp

lemma setView_locked:
  assumes "syncing st" and "get_map q st = Some m'" and "listeners m' = installed q"
  shows "setView (Suc k) q c z a st =
           Some (Ok (put_map q (m'\<lparr>view := Some (limit_center (maxBounds (map_opts m')) c, z)\<rparr>)
                       (log_call (Call_setView q c z a) st)))"
  using assms by (simp add: Let_def)

lemma unlock: "\<not> syncing st \<Longrightarrow>
   (put_map q m (log_call c (st\<lparr>syncing := True\<rparr>)))\<lparr>syncing := False\<rparr> = put_map q m (log_call c st)"
  by (cases q; cases st; simp add: log_call_def)


lemma dispatch_sync:
  assumes "wired st" and "\<not> syncing st" and "ty = Move \<or> ty = Zoom"
    and "get_map p st = Some m" and "view m = Some (c, z)"
    and "get_map (other p) st = Some m'"
  shows "dispatch (Suc (Suc k)) p ty oe st =
           Some (Ok (put_map (other p) (m'\<lparr>view := Some (limit_center (maxBounds (map_opts m')) c, z)\<rparr>)
                       (log_call (Call_setView (other p) c z (Some False)) st)))"
proof -
  from assms(1) assms(4) have lm: "listeners m = installed p"
    by (cases p) (auto elim!: wiredD)
  from assms(1) assms(6) have lm': "listeners m' = installed (other p)"
    by (cases p) (auto elim!: wiredD)
  have sv: "setView (Suc k) (other p) c z (Some False) (st\<lparr>syncing := True\<rparr>) =
      Some (Ok (put_map (other p) (m'\<lparr>view := Some (limit_center (maxBounds (map_opts m')) c, z)\<rparr>)
                  (log_call (Call_setView (other p) c z (Some False))
                     (st\<lparr>syncing := True\<rparr>))))"
    by (rule setView_locked) (simp_all add: assms(6) lm')
  have "syncView (Suc (Suc k)) p (other p) st =
          Some (Ok (put_map (other p) (m'\<lparr>view := Some (limit_center (maxBounds (map_opts m')) c, z)\<rparr>)
                       (log_call (Call_setView (other p) c z (Some False)) st)))"
    using assms(2,4,5) sv by (simp add: unlock del: setView.simps)
  moreover have "handlers_for ty m = [SyncView p (other p)]"
    using assms(3) lm by auto
  ultimately show ?thesis
    using assms(4) by (simp add: dispatch_def del: syncView.simps setView.simps)
qed

lemma dispatch_sync_starved:
  assumes "wired st" and "\<not> syncing st" and "ty = Move \<or> ty = Zoom" and "n < 2"
  shows "dispatch n p ty oe st = None"
proof -
  from assms(1) obtain m v where m: "get_map p st = Some m" "listeners m = installed p"
    "view m = Some v"
    by (rule get_map_wired)
  from assms(1) obtain m' v' where m': "get_map (other p) st = Some m'"
    "listeners m' = installed (other p)" "view m' = Some v'"
    by (rule get_map_wired)
  have h: "handlers_for ty m = [SyncView p (other p)]"
    using assms(3) m(2) by auto
  have h': "handlers_for Move m' = [SyncView (other p) (other (other p))]"
       "handlers_for Zoom m' = [SyncView (other p) (other (other p))]"
    using m'(2) by auto
  from assms(4) consider "n = 0" | "n = Suc 0" by arith
  then show ?thesis
  proof cases
    case 1
    then show ?thesis using m h by (simp add: dispatch_def)
  next
    case 2
    obtain c z where v: "v = (c, z)" by (cases v)
    show ?thesis
      using 2 m h m' h' assms(2) v
      by (simp add: dispatch_def Let_def)
  qed
qed




section \<open>Listeners leave the historical layer alone\<close>

lemma sync_frame:
  "(\<forall>r. syncView n a b st = Some r \<longrightarrow> hist_part (final r) = hist_part st)"
  "(\<forall>r. setView n p c z an st = Some r \<longrightarrow> hist_part (final r) = hist_part st)"
  "(\<forall>r. fire n hs e st = Some r \<longrightarrow> hist_part (final r) = hist_part st)"
proof (induction n a b st and n p c z an st and n hs e st rule: syncView_setView_fire.induct)
  case (1 fromMap toMap st)
  then show ?case by simp
next
  case (2 n fromMap toMap st)
  show ?case
  proof (intro allI impI)
    fix r assume r: "syncView (Suc n) fromMap toMap st = Some r"
    show "hist_part (final r) = hist_part st"
    proof (cases "syncing st")
      case True
      with r show ?thesis by auto
    next
      case False
      show ?thesis
      proof (cases "get_map fromMap st")
        case None
        with r False show ?thesis by auto
      next
        case (Some f)
        then have gm: "get_map fromMap (st\<lparr>syncing := True\<rparr>) = Some f" by simp
        show ?thesis
        proof (cases "view f")
          case None
          with r False Some show ?thesis by auto
        next
          case (Some cz)
          obtain c z where cz: "(c, z) = cz" by (cases cz) auto
          from "2.IH" [OF False refl gm Some cz]
          have ih: "\<forall>r. setView n toMap c z (Some False) (st\<lparr>syncing := True\<rparr>) = Some r
                      \<longrightarrow> hist_part (final r) = hist_part (st\<lparr>syncing := True\<rparr>)" .
          show ?thesis
          proof (cases "setView n toMap c z (Some False) (st\<lparr>syncing := True\<rparr>)")
            case None
            with r False gm Some cz show ?thesis
              by (auto simp del: setView.simps)
          next
            case (Some r')
            with ih have "hist_part (final r') = hist_part st" by simp
            with r False gm \<open>view f = Some cz\<close> cz Some show ?thesis
              by (cases r') (auto simp del: setView.simps)
          qed
        qed
      qed
    qed
  qed
next
  case (3 n p center zoom animate st)
  show ?case
  proof (intro allI impI)
    fix r assume r: "setView n p center zoom animate st = Some r"
    show "hist_part (final r) = hist_part st"
    proof (cases "get_map p st")
      case None
      with r show ?thesis by auto
    next
      case (Some m)
      define st1 where "st1 = put_map p
                   (m\<lparr>view := Some (limit_center (maxBounds (map_opts m)) center, zoom)\<rparr>)
                   (log_call (Call_setView p center zoom animate) st)"
      define ev where "ev = \<lparr>target = p, originalEvent = None\<rparr>"
      define zc where "zc = (map_option snd (view m) \<noteq> Some zoom)"
      have h1: "hist_part st1 = hist_part st" using Some by (simp add: st1_def)
      define mid where "mid = (if zc then fire n (handlers_for Zoom m) ev st1 else Some (Ok st1))"
      have r': "(case mid of None \<Rightarrow> None | Some (Ok st2) \<Rightarrow> fire n (handlers_for Move m) ev st2
                  | Some (Threw err st2) \<Rightarrow> Some (Threw err st2)) = Some r"
        using r unfolding mid_def zc_def ev_def st1_def
        by (simp only: setView.simps Some option.case Let_def)
      have hm: "\<forall>r. mid = Some r \<longrightarrow> hist_part (final r) = hist_part st"
      proof (cases zc)
        case True
        from "3.IH"(1) [OF Some st1_def ev_def zc_def True] h1 True
        show ?thesis by (simp add: mid_def)
      next
        case False
        with h1 show ?thesis by (simp add: mid_def)
      qed
      show ?thesis
      proof (cases mid)
        case None
        with r' show ?thesis by simp
      next
        case (Some r1)
        show ?thesis
        proof (cases r1)
          case (Ok st2)
          from "3.IH"(2) [OF \<open>get_map p st = Some m\<close> st1_def ev_def zc_def Some [unfolded mid_def] Ok]
          have "\<forall>r. fire n (handlers_for Move m) ev st2 = Some r
                  \<longrightarrow> hist_part (final r) = hist_part st2" .
          moreover have "hist_part st2 = hist_part st" using hm Some Ok by simp
          ultimately show ?thesis using r' Some Ok by simp
        next
          case (Threw err st2)
          then show ?thesis using hm Some r' by auto
        qed
      qed
    qed
  qed
next
  case (4 n e st)
  then show ?case by simp
next
  case (5 n h hs e st)
  show ?case
  proof (intro allI impI)
    fix r assume r: "fire n (h # hs) e st = Some r"
    define first where "first = (case h of SyncView a b \<Rightarrow> syncView n a b st
            | UpdateCursors \<Rightarrow> Some (updateCursors e st))"
    have hf: "\<forall>r. first = Some r \<longrightarrow> hist_part (final r) = hist_part st"
    proof (cases h)
      case (SyncView a b)
      from "5.IH"(1) [OF SyncView] SyncView show ?thesis by (simp add: first_def)
    next
      case UpdateCursors
      then show ?thesis by (simp add: first_def)
    qed
    have r': "(case first of None \<Rightarrow> None | Some (Ok st1) \<Rightarrow> fire n hs e st1
                | Some (Threw err st1) \<Rightarrow> Some (Threw err st1)) = Some r"
      using r by (simp add: first_def)
    show "hist_part (final r) = hist_part st"
    proof (cases first)
      case None
      with r' show ?thesis by simp
    next
      case (Some r1)
      show ?thesis
      proof (cases r1)
        case (Ok st1)
        from "5.IH"(2) [OF Some [unfolded first_def] Ok]
        have "\<forall>r. fire n hs e st1 = Some r \<longrightarrow> hist_part (final r) = hist_part st1" .
        moreover have "hist_part st1 = hist_part st" using hf Some Ok by simp
        ultimately show ?thesis using r' Some Ok by simp
      next
        case (Threw err st1)
        then show ?thesis using hf Some r' by auto
      qed
    qed
  qed
qed

lemma dispatch_frame:
  "dispatch n p ty oe st = Some r \<Longrightarrow> hist_part (final r) = hist_part st"
  using sync_frame(3) by (auto simp: dispatch_def split: option.splits)

section \<open>Initialisation, phase by phase\<close>

lemma and_then_assoc: "and_then (and_then r f) g = and_then r (\<lambda>st. and_then (f st) g)"
  by (auto simp: and_then_def split: option.splits result.splits)

lemma initMaps_phases:
  "initMaps rt tfm n city initialYear st0 =
     and_then (build_widgets n city st0)
       (\<lambda>st. and_then (Some (updateHistoricalLayer rt tfm city initialYear st))
                install_listeners)"
  unfolding initMaps_def build_widgets_def install_listeners_def
  by (simp add: and_then_assoc tileLayer_def Let_def)

lemma setView_fresh:
  assumes "get_map p st = Some m" and "listeners m = []"
  shows "setView n p c z a st =
           Some (Ok (put_map p (m\<lparr>view := Some (limit_center (maxBounds (map_opts m)) c, z)\<rparr>)
                       (log_call (Call_setView p c z a) st)))"
  using assms by (simp add: handlers_for_def Let_def)

text \<open>The four centres of the table lie inside the bounds, so the widget takes them as
  they are.\<close>

lemma limit_center_table:
  assumes "map_of centerCoords city = Some c"
  shows "limit_center bounds c = c"
  using assms
  by (auto simp: centerCoords_def limit_center_def bounds_def split: if_splits)

lemma create_map_ok:
  assumes "map_of centerCoords city = Some c"
  shows "create_map n p el city st =
           Some (Ok (put_map p ((new_map el panel_options)\<lparr>view := Some (c, 13)\<rparr>)
                       (log_call (Call_setView p c 13 None)
                          (log_call (Call_map p el panel_options) st))))"
proof -
  let ?st1 = "put_map p (new_map el panel_options) (log_call (Call_map p el panel_options) st)"
  have "maxBounds (map_opts (new_map el panel_options)) = bounds"
    by (simp add: new_map_def panel_options_def)
  with limit_center_table [OF assms]
  have l: "limit_center (maxBounds (map_opts (new_map el panel_options))) c = c"
    by simp
  have "setView n p c 13 None ?st1 =
          Some (Ok (put_map p
                      ((new_map el panel_options)
                         \<lparr>view := Some (limit_center
                                          (maxBounds (map_opts (new_map el panel_options))) c,
                                        13)\<rparr>)
                      (log_call (Call_setView p c 13 None) ?st1)))"
    by (rule setView_fresh) (simp_all add: new_map_def)
  then have "setView n p c 13 None ?st1 =
          Some (Ok (put_map p ((new_map el panel_options)\<lparr>view := Some (c, 13)\<rparr>)
                      (log_call (Call_setView p c 13 None) ?st1)))"
    by (simp only: l)
  then show ?thesis
    using assms by (cases p) (simp_all add: create_map_def Let_def log_call_def del: setView.simps)
qed

lemma build_widgets_ok:
  assumes "map_of centerCoords city = Some c" and "map1 st0 = None \<or> map2 st0 \<noteq> None"
  shows "\<exists>st. build_widgets n city st0 = Some (Ok st)
          \<and> map1 st = Some \<lparr>container = ''map1'', map_opts = panel_options,
                            view = Some (c, 13), layers = [length (heap st0)],
                            listeners = [], controls = []\<rparr>
          \<and> map2 st = Some \<lparr>container = ''map2'', map_opts = panel_options,
                            view = Some (c, 13), layers = [length (heap st0) + 2],
                            listeners = [],
                            controls = [[(''OpenStreetMap'', length (heap st0) + 1),
                                         (''Satellite Imagery'', length (heap st0) + 2)]]\<rparr>
          \<and> heap st = heap st0 @ [\<lparr>url = osm_url, options = osm_options\<rparr>,
                                  \<lparr>url = osm_url, options = osm_options\<rparr>,
                                  \<lparr>url = google_url, options = google_options\<rparr>]
          \<and> histLayer st = histLayer st0 \<and> console st = console st0
          \<and> cursor1 st = cursor1 st0 \<and> cursor2 st = cursor2 st0"
proof (cases "map1 st0")
  case None
  then show ?thesis
    using assms(1)
    by (simp add: build_widgets_def and_then_def tileLayer_def create_map_ok
          addTo_def control_layers_addTo_def log_call_def new_map_def Let_def
          del: setView.simps)
next
  case (Some m1)
  with assms(2) obtain m2 where "map2 st0 = Some m2" by auto
  with Some show ?thesis
    using assms(1)
    by (simp add: build_widgets_def and_then_def remove_map_def tileLayer_def create_map_ok
          addTo_def control_layers_addTo_def log_call_def new_map_def Let_def
          del: setView.simps)
qed

lemma build_widgets_no_coords:
  assumes "map_of centerCoords city = None" and "map1 st0 = None"
  shows "\<exists>st. build_widgets n city st0 = Some (Threw TypeError st)
           \<and> map1 st = None \<and> histLayer st = histLayer st0"
  using assms
  by (simp add: build_widgets_def and_then_def tileLayer_def create_map_def log_call_def
        Let_def del: setView.simps)

lemma install_listeners_ok:
  assumes "map1 st = Some m1" and "map2 st = Some m2"
  shows "install_listeners st =
           Some (Ok (st\<lparr>syncing := False,
                        cursor1 := Some (createCursor ''map1''),
                        cursor2 := Some (createCursor ''map2''),
                        map1 := Some (m1\<lparr>listeners := listeners m1 @ installed Map1\<rparr>),
                        map2 := Some (m2\<lparr>listeners := listeners m2 @ installed Map2\<rparr>),
                        calls := calls st @
                          [Call_on Map1 [Move, Zoom] (SyncView Map1 Map2),
                           Call_on Map2 [Move, Zoom] (SyncView Map2 Map1),
                           Call_on Map1 [MouseMove] UpdateCursors,
                           Call_on Map2 [MouseMove] UpdateCursors]\<rparr>))"
  using assms
  by (simp add: install_listeners_def and_then_def on_def log_call_def installed_def Let_def)

text \<open>
  C8. For every city that has a row in \<open>centerCoords\<close>, with \<open>c\<close> its coordinate,
  \<open>initMaps\<close> returns, and on the page it leaves both panels exist, both with the view
  \<open>(c, 13)\<close> and both with \<open>maxBounds\<close> south-west \<open>(35, -10)\<close>, north-east \<open>(71, 40)\<close>.
  This holds on first load and on a second initialisation of a page that has both
  panels, and also when the historical layer step throws.
\<close>

theorem initMaps_views:
  assumes "map_of centerCoords city = Some c" and "map1 st0 = None \<or> map2 st0 \<noteq> None"
  shows "\<exists>r m1 m2. initMaps rt tfm n city initialYear st0 = Some r
           \<and> map1 (final r) = Some m1 \<and> map2 (final r) = Some m2
           \<and> view m1 = Some (c, 13) \<and> view m2 = Some (c, 13)
           \<and> maxBounds (map_opts m1) = ((35, -10), (71, 40))
           \<and> maxBounds (map_opts m2) = ((35, -10), (71, 40))"
proof -
  from build_widgets_ok [OF assms, of n]
  obtain st where b: "build_widgets n city st0 = Some (Ok st)"
    and m1: "map1 st = Some \<lparr>container = ''map1'', map_opts = panel_options,
                            view = Some (c, 13), layers = [length (heap st0)],
                            listeners = [], controls = []\<rparr>"
    and m2: "map2 st = Some \<lparr>container = ''map2'', map_opts = panel_options,
                            view = Some (c, 13), layers = [length (heap st0) + 2],
                            listeners = [],
                            controls = [[(''OpenStreetMap'', length (heap st0) + 1),
                                         (''Satellite Imagery'', length (heap st0) + 2)]]\<rparr>"
    by blast
  define r1 where "r1 = updateHistoricalLayer rt tfm city initialYear st"
  from updateHistoricalLayer_frame(1,2) [of rt tfm city initialYear st] m1
  obtain m1' where m1': "map1 (final r1) = Some m1'" "view m1' = Some (c, 13)"
    "map_opts m1' = panel_options"
    by (cases "map1 (final r1)") (auto simp: r1_def)
  have m2': "map2 (final r1) = map2 st"
    by (simp add: r1_def updateHistoricalLayer_frame)
  have i: "initMaps rt tfm n city initialYear st0 = and_then (Some r1) install_listeners"
    by (simp add: initMaps_phases b and_then_def r1_def)
  show ?thesis
  proof (cases r1)
    case (Ok st1)
    with m1' m2' m2 show ?thesis
      using install_listeners_ok [of st1] i
      by (simp add: and_then_def panel_options_def bounds_def)
  next
    case (Threw e st1)
    with m1' m2' m2 show ?thesis
      using i by (simp add: and_then_def panel_options_def bounds_def)
  qed
qed

theorem initMaps_views_witness:
  "map_of centerCoords ''dresden'' = Some (51.0504, 13.7373)
   \<and> map1 (page0 (0, 0) (600, 0)) = None
   \<and> (\<exists>r m1 m2. initMaps strict_runtime TILE_FOLDER_MAP 0 ''dresden'' ''1833''
                     (page0 (0, 0) (600, 0)) = Some r
          \<and> map1 (final r) = Some m1 \<and> map2 (final r) = Some m2
          \<and> view m1 = Some ((51.0504, 13.7373), 13)
          \<and> view m2 = Some ((51.0504, 13.7373), 13)
          \<and> maxBounds (map_opts m1) = ((35, -10), (71, 40))
          \<and> maxBounds (map_opts m2) = ((35, -10), (71, 40)))"
proof -
  have c: "map_of centerCoords ''dresden'' = Some (51.0504, 13.7373)"
    by (simp add: centerCoords_def)
  have f: "map1 (page0 (0, 0) (600, 0)) = None \<or> map2 (page0 (0, 0) (600, 0)) \<noteq> None"
    by (simp add: page0_def)
  from initMaps_views [OF c f, of strict_runtime TILE_FOLDER_MAP 0 "''1833''"]
  show ?thesis using c by (simp add: page0_def)
qed

lemma initMaps_wired:
  assumes "initMaps rt tfm n city year (page0 r1 r2) = Some (Ok st)"
  shows "wired st \<and> \<not> syncing st"
proof (cases "map_of centerCoords city")
  case None
  from build_widgets_no_coords [OF None, of "page0 r1 r2" n] assms
  show ?thesis by (auto simp: initMaps_phases and_then_def page0_def)
next
  case (Some c)
  from build_widgets_ok [OF Some, of "page0 r1 r2" n]
  obtain st6 where b: "build_widgets n city (page0 r1 r2) = Some (Ok st6)"
    and m: "map_option view (map1 st6) = Some (Some (c, 13))"
      "map_option listeners (map1 st6) = Some []"
      "map_option view (map2 st6) = Some (Some (c, 13))"
      "map_option listeners (map2 st6) = Some []"
    by (auto simp: page0_def)
  from assms b obtain st7 where u: "updateHistoricalLayer rt tfm city year st6 = Ok st7"
    and i: "install_listeners st7 = Some (Ok st)"
    by (cases "updateHistoricalLayer rt tfm city year st6")
       (auto simp: initMaps_phases and_then_def)
  from updateHistoricalLayer_frame(1,3,4) [of rt tfm city year st6] u m
  obtain m1 m2 where m': "map1 st7 = Some m1" "map2 st7 = Some m2"
    "view m1 = Some (c, 13)" "listeners m1 = []" "view m2 = Some (c, 13)" "listeners m2 = []"
    by (cases "map1 st7"; cases "map2 st7") auto
  from i install_listeners_ok [OF m'(1,2)] m' show ?thesis
    by (auto simp: wired_def)
qed

lemma initMaps_hist_inv:
  assumes "initMaps rt tfm n city year (page0 r1 r2) = Some r"
  shows "hist_inv (final r)"
proof (cases "map_of centerCoords city")
  case None
  from build_widgets_no_coords [OF None, of "page0 r1 r2" n]
  obtain st where "build_widgets n city (page0 r1 r2) = Some (Threw TypeError st)"
    "map1 st = None" "histLayer st = None"
    by (auto simp: page0_def)
  with assms show ?thesis
    by (auto simp: initMaps_phases and_then_def hist_inv_def)
next
  case (Some c)
  from build_widgets_ok [OF Some, of "page0 r1 r2" n]
  obtain st where b: "build_widgets n city (page0 r1 r2) = Some (Ok st)"
    and m: "map1 st = Some \<lparr>container = ''map1'', map_opts = panel_options,
                            view = Some (c, 13), layers = [0],
                            listeners = [], controls = []\<rparr>"
    "map2 st \<noteq> None"
    "length (heap st) = 3" "histLayer st = None"
    by (auto simp: page0_def)
  have "hist_inv st" using m by (simp add: hist_inv_def)
  then have h1: "hist_inv (final (updateHistoricalLayer rt tfm city year st))"
    by (rule updateHistoricalLayer_hist_inv)
  show ?thesis
  proof (cases "updateHistoricalLayer rt tfm city year st")
    case (Threw e st1)
    with assms b h1 show ?thesis
      by (auto simp: initMaps_phases and_then_def)
  next
    case (Ok st1)
    from updateHistoricalLayer_frame(1) [of rt tfm city year st] m Ok
    obtain m1 where m1: "map1 st1 = Some m1" by (cases "map1 st1") auto
    from updateHistoricalLayer_frame(4) [of rt tfm city year st] m Ok
    obtain m2 where m2: "map2 st1 = Some m2" by (cases "map2 st1") auto
    from h1 Ok have h2: "hist_inv st1" by simp
    from assms b Ok have "install_listeners st1 = Some r"
      by (simp add: initMaps_phases and_then_def)
    then have "hist_part (final r) = hist_part st1"
      using install_listeners_ok [OF m1 m2] m1 by (auto simp: hist_part_def)
    from hist_inv_hist_part [OF this] h2 show ?thesis by simp
  qed
qed

section \<open>Every reachable page is at rest\<close>

lemma build_widgets_ok_syncing:
  assumes "map_of centerCoords city = Some c" and "map1 st0 = None"
  shows "\<exists>st. build_widgets n city st0 = Some (Ok st) \<and> syncing st = syncing st0"
  using assms
  by (simp add: build_widgets_def and_then_def tileLayer_def create_map_ok
        addTo_def control_layers_addTo_def log_call_def new_map_def Let_def
        del: setView.simps)

lemma build_widgets_no_coords_unwired:
  assumes "map_of centerCoords city = None" and "map1 st0 = None"
  shows "\<exists>st. build_widgets n city st0 = Some (Threw TypeError st)
           \<and> map1 st = None \<and> map2 st = map2 st0 \<and> syncing st = syncing st0"
  using assms
  by (simp add: build_widgets_def and_then_def tileLayer_def create_map_def log_call_def
        Let_def del: setView.simps)

lemma wired_frame:
  assumes "wired st"
    and "map_option listeners (map1 st') = map_option listeners (map1 st)"
    and "map_option view (map1 st') = map_option view (map1 st)"
    and "map_option listeners (map2 st') = map_option listeners (map2 st)"
    and "map_option view (map2 st') = map_option view (map2 st)"
    and "cursor1 st' \<noteq> None" and "cursor2 st' \<noteq> None"
  shows "wired st'"
  using assms
  by (cases "map1 st"; cases "map2 st"; cases "map1 st'"; cases "map2 st'")
     (simp_all add: wired_def)

lemma unwired_frame:
  assumes "unwired st"
    and "map_option listeners (map1 st') = map_option listeners (map1 st)"
    and "map_option listeners (map2 st') = map_option listeners (map2 st)"
  shows "unwired st'"
  using assms
  by (cases "map1 st"; cases "map2 st"; cases "map1 st'"; cases "map2 st'")
     (simp_all add: unwired_def)

lemma settled_frame:
  assumes "settled st"
    and "map_option listeners (map1 st') = map_option listeners (map1 st)"
    and "map_option view (map1 st') = map_option view (map1 st)"
    and "map_option listeners (map2 st') = map_option listeners (map2 st)"
    and "map_option view (map2 st') = map_option view (map2 st)"
    and "cursor1 st \<noteq> None \<longrightarrow> cursor1 st' \<noteq> None"
    and "cursor2 st \<noteq> None \<longrightarrow> cursor2 st' \<noteq> None"
    and "syncing st' = syncing st"
  shows "settled st'"
proof -
  from assms(1) have ns: "\<not> syncing st'"
    unfolding settled_def assms(8) by simp
  show ?thesis
  proof (cases "wired st")
    case True
    then have c: "cursor1 st \<noteq> None" "cursor2 st \<noteq> None" by (auto elim: wiredD)
    have "wired st'"
    proof (rule wired_frame [OF True assms(2) assms(3) assms(4) assms(5)])
      show "cursor1 st' \<noteq> None" using assms(6) c(1) by blast
      show "cursor2 st' \<noteq> None" using assms(7) c(2) by blast
    qed
    with ns show ?thesis unfolding settled_def by blast
  next
    case False
    with assms(1) have "unwired st" unfolding settled_def by blast
    then have "unwired st'" by (rule unwired_frame [OF _ assms(2) assms(4)])
    with ns show ?thesis unfolding settled_def by blast
  qed
qed

lemma updateHistoricalLayer_settled:
  assumes "settled st"
  shows "settled (final (updateHistoricalLayer rt tfm city year st))"
  by (rule settled_frame [OF assms]) (simp_all add: updateHistoricalLayer_frame)

lemma gesture_settled:
  assumes "settled st" and "get_map p st = Some m"
  shows "settled (put_map p (m\<lparr>view := Some v\<rparr>) st)"
proof (cases "wired st")
  case True
  then obtain m1 m2 c1 c2 v1 v2 where "map1 st = Some m1" "map2 st = Some m2"
    "listeners m1 = installed Map1" "listeners m2 = installed Map2"
    "view m1 = Some v1" "view m2 = Some v2" "cursor1 st = Some c1" "cursor2 st = Some c2"
    by (rule wiredD)
  with assms have "wired (put_map p (m\<lparr>view := Some v\<rparr>) st)"
    by (cases p) (auto simp: wired_def)
  with assms show ?thesis by (simp add: settled_def)
next
  case False
  with assms have "unwired st" by (simp add: settled_def)
  with assms(2) have "unwired (put_map p (m\<lparr>view := Some v\<rparr>) st)"
    by (cases p) (auto simp: unwired_def split: option.splits)
  with assms show ?thesis by (simp add: settled_def)
qed

lemma dispatch_unwired:
  assumes "unwired st"
  shows "dispatch n p ty oe st = Some (Ok st)"
proof (cases "get_map p st")
  case None
  then show ?thesis by (simp add: dispatch_def)
next
  case (Some m)
  with assms have "listeners m = []"
    by (cases p) (auto simp: unwired_def)
  with Some show ?thesis by (simp add: dispatch_def handlers_for_def)
qed

lemma dispatch_settled:
  assumes "settled st" and "dispatch n p ty oe st = Some r"
  shows "settled (final r)"
proof (cases "wired st")
  case False
  with assms(1) have "unwired st" by (simp add: settled_def)
  from dispatch_unwired [OF this, of n p ty oe] assms show ?thesis by simp
next
  case True
  from assms(1) have ns: "\<not> syncing st" by (simp add: settled_def)
  from True obtain m v where m: "get_map p st = Some m" "listeners m = installed p"
    "view m = Some v"
    by (rule get_map_wired)
  from True obtain m' v' where m': "get_map (other p) st = Some m'"
    "listeners m' = installed (other p)" "view m' = Some v'"
    by (rule get_map_wired)
  from True obtain c1 c2 where c: "cursor1 st = Some c1" "cursor2 st = Some c2"
    by (auto elim: wiredD)
  show ?thesis
  proof (cases "ty = MouseMove")
    case mm: True
    show ?thesis
    proof (cases oe)
      case None
      with assms mm m show ?thesis
        by (auto simp: dispatch_def updateCursors_def split: prod.splits)
    next
      case (Some xy)
      obtain cx cy where xy: "xy = (cx, cy)" by (cases xy)
      obtain l t where lt: "container_rect p st = (l, t)" by (cases "container_rect p st")
      have "updateCursors \<lparr>target = p, originalEvent = oe\<rparr> st =
              Ok (st\<lparr>cursor1 := Some (c1\<lparr>style_left := Some (Px (cx - l)),
                                      style_top := Some (Px (cy - t))\<rparr>),
                  cursor2 := Some (c2\<lparr>style_left := Some (Px (cx - l)),
                                      style_top := Some (Px (cy - t))\<rparr>)\<rparr>)"
        by (rule updateCursors_mirrors [OF c]) (simp_all add: Some xy lt)
      with assms(2) mm m
      have "final r = st\<lparr>cursor1 := Some (c1\<lparr>style_left := Some (Px (cx - l)),
                                      style_top := Some (Px (cy - t))\<rparr>),
                  cursor2 := Some (c2\<lparr>style_left := Some (Px (cx - l)),
                                      style_top := Some (Px (cy - t))\<rparr>)\<rparr>"
        by (auto simp: dispatch_def)
      then show ?thesis
        using c by (intro settled_frame [OF assms(1)]) simp_all
    qed
  next
    case False
    then have ty: "ty = Move \<or> ty = Zoom" by (cases ty) auto
    show ?thesis
    proof (cases "n < 2")
      case True
      from dispatch_sync_starved [OF \<open>wired st\<close> ns ty True, of p oe] assms(2)
      show ?thesis by simp
    next
      case nf: False
      then obtain k where k: "n = Suc (Suc k)"
        by (metis not_less Suc_le_D numeral_2_eq_2 Suc_le_mono)
      obtain cc z where v: "v = (cc, z)" by (cases v)
      from dispatch_sync [OF \<open>wired st\<close> ns ty m(1) m(3) [unfolded v] m'(1), of k oe]
        assms(2) k
      have r: "final r = put_map (other p)
                       (m'\<lparr>view := Some (limit_center (maxBounds (map_opts m')) cc, z)\<rparr>)
                       (log_call (Call_setView (other p) cc z (Some False)) st)"
        by auto
      have "settled (log_call (Call_setView (other p) cc z (Some False)) st)"
        by (rule settled_frame [OF assms(1)]) simp_all
      from gesture_settled
             [OF this, of "other p" m' "(limit_center (maxBounds (map_opts m')) cc, z)"]
           m'(1) r
      show ?thesis by simp
    qed
  qed
qed

lemma initMaps_settled:
  assumes "initMaps rt tfm n city year (page0 r1 r2) = Some r"
  shows "settled (final r)"
proof (cases r)
  case (Ok st)
  with assms initMaps_wired [of rt tfm n city year r1 r2 st] show ?thesis
    by (simp add: settled_def)
next
  case (Threw e st)
  have p0: "map1 (page0 r1 r2) = None" "map2 (page0 r1 r2) = None"
    "\<not> syncing (page0 r1 r2)"
    by (simp_all add: page0_def)
  show ?thesis
  proof (cases "map_of centerCoords city")
    case None
    from build_widgets_no_coords_unwired [OF None p0(1), of n]
    obtain st1 where "build_widgets n city (page0 r1 r2) = Some (Threw TypeError st1)"
      "map1 st1 = None" "map2 st1 = None" "\<not> syncing st1"
      using p0 by auto
    with assms show ?thesis
      by (auto simp: initMaps_phases and_then_def settled_def unwired_def)
  next
    case (Some c)
    from build_widgets_ok [OF Some, of "page0 r1 r2" n] p0
    obtain st6 where b: "build_widgets n city (page0 r1 r2) = Some (Ok st6)"
      and m: "map_option listeners (map1 st6) = Some []"
        "map_option listeners (map2 st6) = Some []"
      by auto
    from build_widgets_ok_syncing [OF Some p0(1), of n] b p0
    have s6: "\<not> syncing st6" by auto
    have "unwired st6"
      using m by (cases "map1 st6"; cases "map2 st6") (simp_all add: unwired_def)
    with s6 have "settled st6" by (simp add: settled_def)
    then have u: "settled (final (updateHistoricalLayer rt tfm city year st6))"
      by (rule updateHistoricalLayer_settled)
    show ?thesis
    proof (cases "updateHistoricalLayer rt tfm city year st6")
      case t: (Threw e' st7)
      with assms b u show ?thesis
        by (auto simp: initMaps_phases and_then_def)
    next
      case o: (Ok st7)
      from updateHistoricalLayer_frame(3,4) [of rt tfm city year st6] m o
      obtain m1 m2 where mm: "map1 st7 = Some m1" "map2 st7 = Some m2"
        by (cases "map1 st7"; cases "map2 st7") auto
      from assms b o have "install_listeners st7 = Some r"
        by (simp add: initMaps_phases and_then_def)
      with install_listeners_ok [OF mm] Threw show ?thesis by simp
    qed
  qed
qed

lemma reachable_settled: "reachable rt tfm st \<Longrightarrow> settled st"
proof (induction rule: reachable.induct)
  case (loaded n city year r1 r2 r)
  then show ?case by (rule initMaps_settled)
next
  case (year_selected st city year)
  then show ?case by (simp add: updateHistoricalLayer_settled)
next
  case (gesture st p m v)
  then show ?case by (simp add: gesture_settled)
next
  case (event st n p ty oe r)
  then show ?case by (simp add: dispatch_settled)
next
  case (base_layer_picked st m bl name h)
  show ?case
    by (rule settled_frame [OF base_layer_picked(5)])
       (simp_all add: base_layer_picked(2))
next
  case (layout st x y)
  show ?case
    by (rule settled_frame [OF layout(2)]) simp_all
qed

text \<open>
  So the guard is clear whenever a panel fires an event of its own, and a page on which
  \<open>initMaps\<close> completed stays set up.
\<close>

lemma reachable_guard_clear: "reachable rt tfm st \<Longrightarrow> \<not> syncing st"
  using reachable_settled [of rt tfm st] by (simp add: settled_def)

section \<open>The invariant on every reachable page\<close>

lemma reachable_hist_inv: "reachable rt tfm st \<Longrightarrow> hist_inv st"
proof (induction rule: reachable.induct)
  case (loaded n city year r1 r2 r)
  then show ?case by (rule initMaps_hist_inv)
next
  case (year_selected st city year)
  then show ?case by (simp add: updateHistoricalLayer_hist_inv)
next
  case (gesture st p m v)
  have "hist_part (put_map p (m\<lparr>view := Some v\<rparr>) st) = hist_part st"
    using gesture(2) by simp
  from hist_inv_hist_part [OF this] gesture(3) show ?case by simp
next
  case (event st n p ty oe r)
  from hist_inv_hist_part [OF dispatch_frame [OF event(2)]] event(3) show ?case by simp
next
  case (base_layer_picked st m bl name h)
  have "hist_part (st\<lparr>map2 := Some (m\<lparr>layers := [h]\<rparr>)\<rparr>) = hist_part st"
    by (simp add: hist_part_def)
  from hist_inv_hist_part [OF this] base_layer_picked(5) show ?case by simp
next
  case (layout st x y)
  have "hist_part (st\<lparr>rect1 := u, rect2 := w\<rparr>) = hist_part st" for u w
    by (simp add: hist_part_def)
  from hist_inv_hist_part [OF this] layout show ?case by simp
qed

text \<open>
  C5. On every reachable page the invariant holds: the primary map carries its base
  layer and at most one more layer, and \<open>histLayer\<close> is undefined exactly when there is
  no such layer and otherwise refers to it. Every call of the switcher from such a
  page, with any city and year, leaves a page on which it holds again, whether the
  call completes or throws.
\<close>

theorem one_historical_layer:
  assumes "reachable rt tfm st"
  shows "hist_inv st \<and> hist_inv (final (updateHistoricalLayer rt tfm city year st))"
  using reachable_hist_inv [OF assms] by (simp add: updateHistoricalLayer_hist_inv)

theorem one_historical_layer_witness:
  "reachable strict_runtime TILE_FOLDER_MAP dresden_page
   \<and> hist_inv dresden_page
   \<and> hist_inv (final (updateHistoricalLayer strict_runtime TILE_FOLDER_MAP
                        ''munich'' ''1400'' dresden_page))"
proof -
  have r: "reachable strict_runtime TILE_FOLDER_MAP dresden_page"
    using reachable.loaded [OF dresden_page_init [of 0]] by simp
  from one_historical_layer [OF r, of "''munich''" "''1400''"] r
  show ?thesis by simp
qed

end
